theory Spec2Isabelle
  imports Main "HOL-Library.Word"
begin

unbundle bit_operations_syntax

section \<open>Spark UI exposure: port resolution, service, URL templating, ingress\<close>

text \<open>
  A shallow embedding of \<^verbatim>\<open>pkg/controller/sparkapplication/sparkui.go\<close>.  Go strings are
  byte sequences and are modelled as \<^typ>\<open>string\<close>; \<^verbatim>\<open>int32\<close> is a 32-bit word and \<^verbatim>\<open>int\<close> a
  64-bit word (the operator is built for 64-bit targets).  A Go function returning
  \<^verbatim>\<open>(T, error)\<close> whose value is meaningful next to the error returns a pair with an
  optional error; one returning \<^verbatim>\<open>(*T, error)\<close> returns a sum, \<open>Inl\<close> being the error.
\<close>

subsection \<open>Bytes and errors\<close>

type_synonym byte = "8 word"
type_synonym int32 = "32 word"
type_synonym int64 = "64 word"
type_synonym uint64 = "64 word"

definition byte :: "char \<Rightarrow> byte" where
  "byte c = of_char c"

datatype num_err = ErrSyntax | ErrRange

datatype url_err =
    InvalidControlCharacter
  | MissingProtocolScheme
  | FirstPathSegmentColon
  | EscapeError string
  | InvalidHostError string
  | MissingBracket
  | InvalidPort string
  | InvalidUserinfo

datatype error =
    NumError string string num_err
  | Errorf string
  | UrlError string string url_err
  | StatusError string
  | PanicIndexOutOfRange

definition syntaxError :: "string \<Rightarrow> string \<Rightarrow> error" where
  "syntaxError fn str = NumError fn str ErrSyntax"

definition rangeError :: "string \<Rightarrow> string \<Rightarrow> error" where
  "rangeError fn str = NumError fn str ErrRange"

subsection \<open>strconv.Atoi\<close>

text \<open>
  The standard library's \<^verbatim>\<open>strconv.Atoi\<close>, which \<^verbatim>\<open>getUITargetPort\<close> calls: the fast path
  for strings shorter than 19 bytes and the slow path through \<^verbatim>\<open>ParseInt(s, 10, 0)\<close> and
  \<^verbatim>\<open>ParseUint(s, 10, 0)\<close>, with base 10 and bit size 64 filled in.
\<close>

text \<open>The loop of the fast path: \<^verbatim>\<open>ch -= '0'; if ch > 9 {syntax error}; n = n*10 + int(ch)\<close>.\<close>

fun atoi_digits :: "int64 \<Rightarrow> string \<Rightarrow> int64 option" where
  "atoi_digits n [] = Some n"
| "atoi_digits n (c # s) =
     (let ch = byte c - 0x30
      in if ch > 9 then None else atoi_digits (n * 10 + ucast ch) s)"

definition lower :: "byte \<Rightarrow> byte" where
  "lower c = c OR 0x20"

definition cutoff10 :: uint64 where
  "cutoff10 = 0xFFFFFFFFFFFFFFFF div 10 + 1"

definition maxVal64 :: uint64 where
  "maxVal64 = 0xFFFFFFFFFFFFFFFF"

text \<open>
  The digit loop of \<^verbatim>\<open>ParseUint\<close>.  The result is the value returned next to the error
  kind: 0 with a syntax error, the maximal value with a range error.  A range error
  returns at the first overflowing digit, before the rest of the string is looked at.
\<close>

fun parseUint_loop :: "uint64 \<Rightarrow> string \<Rightarrow> uint64 \<times> num_err option" where
  "parseUint_loop n [] = (n, None)"
| "parseUint_loop n (c # s) =
     (let b = byte c in
      if \<not> (0x30 \<le> b \<and> b \<le> 0x39) \<and> \<not> (0x61 \<le> lower b \<and> lower b \<le> 0x7A)
      then (0, Some ErrSyntax)
      else
        let d = (if 0x30 \<le> b \<and> b \<le> 0x39 then b - 0x30 else lower b - 0x61 + 10) in
        if d \<ge> 10 then (0, Some ErrSyntax)
        else if n \<ge> cutoff10 then (maxVal64, Some ErrRange)
        else
          let n' = n * 10; n1 = n' + ucast d in
          if n1 < n' \<or> n1 > maxVal64 then (maxVal64, Some ErrRange)
          else parseUint_loop n1 s)"

definition ParseUint :: "string \<Rightarrow> uint64 \<times> error option" where
  "ParseUint s =
     (if s = [] then (0, Some (syntaxError ''ParseUint'' s))
      else case parseUint_loop 0 s of
             (n, None) \<Rightarrow> (n, None)
           | (n, Some ErrSyntax) \<Rightarrow> (n, Some (syntaxError ''ParseUint'' s))
           | (n, Some ErrRange) \<Rightarrow> (n, Some (rangeError ''ParseUint'' s)))"

definition cutoff63 :: uint64 where
  "cutoff63 = 0x8000000000000000"

definition ParseInt :: "string \<Rightarrow> int64 \<times> error option" where
  "ParseInt s =
     (if s = [] then (0, Some (syntaxError ''ParseInt'' s))
      else
        let s0 = s;
            neg = (hd s = CHR ''-'');
            s1 = (if hd s = CHR ''+'' \<or> hd s = CHR ''-'' then tl s else s);
            (un, err) = ParseUint s1
        in case err of
             Some (NumError fn str ErrSyntax) \<Rightarrow> (0, Some (NumError ''ParseInt'' s0 ErrSyntax))
           | _ \<Rightarrow>
               if \<not> neg \<and> un \<ge> cutoff63 then (cutoff63 - 1, Some (rangeError ''ParseInt'' s0))
               else if neg \<and> un > cutoff63 then (- cutoff63, Some (rangeError ''ParseInt'' s0))
               else (if neg then - un else un, None))"

fun setFunc :: "string \<Rightarrow> error \<Rightarrow> error" where
  "setFunc fn (NumError f str e) = NumError fn str e"
| "setFunc fn e = e"

definition Atoi :: "string \<Rightarrow> int64 \<times> error option" where
  "Atoi s =
     (let sLen = length s in
      if 0 < sLen \<and> sLen < 19 then
        (let s0 = s;
             signed = (hd s = CHR ''-'' \<or> hd s = CHR ''+'');
             s1 = (if signed then tl s else s)
         in if signed \<and> length s1 < 1 then (0, Some (syntaxError ''Atoi'' s0))
            else case atoi_digits 0 s1 of
                   None \<Rightarrow> (0, Some (syntaxError ''Atoi'' s0))
                 | Some n \<Rightarrow> (if hd s0 = CHR ''-'' then - n else n, None))
      else
        (let (i64, err) = ParseInt s in (i64, map_option (setFunc ''Atoi'') err)))"

subsection \<open>fmt: the verb \<^verbatim>\<open>%d\<close>\<close>

definition digit_char :: "nat \<Rightarrow> char" where
  "digit_char d = ''0123456789'' ! d"

fun dec :: "nat \<Rightarrow> string" where
  "dec n = (if n < 10 then [digit_char n] else dec (n div 10) @ [digit_char (n mod 10)])"

definition fmt_d :: "int \<Rightarrow> string" where
  "fmt_d i = (if i < 0 then CHR ''-'' # dec (nat (- i)) else dec (nat i))"

subsection \<open>The workload\<close>

text \<open>
  A Go map is \<open>None\<close> when nil.  \<^verbatim>\<open>len(m) != 0\<close> is \<open>\<not> map_empty m\<close>; a lookup in a nil
  map finds nothing.
\<close>

type_synonym gomap = "(string \<rightharpoonup> string) option"

definition map_empty :: "gomap \<Rightarrow> bool" where
  "map_empty m = (case m of None \<Rightarrow> True | Some f \<Rightarrow> dom f = {})"

definition map_lookup :: "gomap \<Rightarrow> string \<Rightarrow> string option" where
  "map_lookup m k = (case m of None \<Rightarrow> None | Some f \<Rightarrow> f k)"

record SparkUIConfiguration =
  ServicePort :: "int32 option"
  ServicePortName :: "string option"

record SparkApplicationSpec =
  SparkConf :: gomap
  SparkUIOptions :: "SparkUIConfiguration option"

record SparkApplication =
  app_Name :: string
  app_Namespace :: string
  app_Spec :: SparkApplicationSpec

definition sparkUIPortConfigurationKey :: string where
  "sparkUIPortConfigurationKey = ''spark.ui.port''"

definition defaultSparkWebUIPort :: int32 where
  "defaultSparkWebUIPort = 4040"

definition defaultSparkWebUIPortName :: string where
  "defaultSparkWebUIPortName = ''spark-driver-ui-port''"

subsection \<open>Port resolution\<close>

definition getUITargetPort :: "SparkApplication \<Rightarrow> int32 \<times> error option" where
  "getUITargetPort app =
     (case map_lookup (SparkConf (app_Spec app)) sparkUIPortConfigurationKey of
        Some portStr \<Rightarrow> (let (port, err) = Atoi portStr in (ucast port, err))
      | None \<Rightarrow> (defaultSparkWebUIPort, None))"

definition getUIServicePort :: "SparkApplication \<Rightarrow> int32 \<times> error option" where
  "getUIServicePort app =
     (case SparkUIOptions (app_Spec app) of
        None \<Rightarrow> getUITargetPort app
      | Some opts \<Rightarrow>
          (case ServicePort opts of
             Some port \<Rightarrow> (port, None)
           | None \<Rightarrow> (defaultSparkWebUIPort, None)))"

definition getUIServicePortName :: "SparkApplication \<Rightarrow> string" where
  "getUIServicePortName app =
     (case SparkUIOptions (app_Spec app) of
        None \<Rightarrow> defaultSparkWebUIPortName
      | Some opts \<Rightarrow>
          (case ServicePortName opts of
             Some portName \<Rightarrow> portName
           | None \<Rightarrow> defaultSparkWebUIPortName))"

subsection \<open>Cluster objects\<close>

text \<open>
  The fields of the Kubernetes API types that the source sets or reads.  A slice that
  may be nil is an optional list.
\<close>

datatype IntOrStringType = intstr_Int | intstr_String

record IntOrString =
  ios_Type :: IntOrStringType
  IntVal :: int32
  StrVal :: string

record OwnerReference =
  or_APIVersion :: string
  or_Kind :: string
  or_Name :: string
  or_UID :: string

record ObjectMeta =
  Name :: string
  Namespace :: string
  Labels :: gomap
  Annotations :: gomap
  OwnerReferences :: "OwnerReference list"

record ServicePortEntry =
  sp_Name :: string
  sp_Port :: int32
  sp_TargetPort :: IntOrString

record ServiceSpec =
  Ports :: "ServicePortEntry list"
  Selector :: gomap
  ss_Type :: string
  ClusterIP :: string

record Service =
  svc_ObjectMeta :: ObjectMeta
  svc_Spec :: ServiceSpec

record IngressTLS =
  Hosts :: "string list"
  SecretName :: string

record IngressBackend =
  ServiceName :: string
  ib_ServicePort :: IntOrString

record HTTPIngressPath =
  ip_Path :: string
  Backend :: IngressBackend

record HTTPIngressRuleValue =
  Paths :: "HTTPIngressPath list"

record IngressRule =
  ir_Host :: string
  HTTP :: "HTTPIngressRuleValue option"

record IngressSpec =
  TLS :: "IngressTLS list option"
  Rules :: "IngressRule list"

record Ingress =
  ing_ObjectMeta :: ObjectMeta
  ing_Spec :: IngressSpec

subsection \<open>net/url: the parsed URL\<close>

record Userinfo =
  username :: string
  password :: string
  passwordSet :: bool

record URL =
  Scheme :: string
  Opaque :: string
  User :: "Userinfo option"
  Host :: string
  Path :: string
  RawPath :: string
  ForceQuery :: bool
  RawQuery :: string
  Fragment :: string
  RawFragment :: string

subsection \<open>Collaborators\<close>

text \<open>
  The accessors of the workload and the label constants of package \<^verbatim>\<open>config\<close> are
  defined in other files of the operator; they are parameters of the model.
  \<^verbatim>\<open>getOwnerReference\<close> yields the reference its result points to.
\<close>

record helpers =
  getIngressResourceAnnotations :: "SparkApplication \<Rightarrow> gomap"
  getIngressTlsHosts :: "SparkApplication \<Rightarrow> IngressTLS list option"
  getDefaultUIIngressName :: "SparkApplication \<Rightarrow> string"
  getDefaultUIServiceName :: "SparkApplication \<Rightarrow> string"
  getResourceLabels :: "SparkApplication \<Rightarrow> gomap"
  getOwnerReference :: "SparkApplication \<Rightarrow> OwnerReference"
  getUIServiceType :: "SparkApplication \<Rightarrow> string"
  getServiceAnnotations :: "SparkApplication \<Rightarrow> gomap"
  SparkAppNameLabel :: string
  SparkRoleLabel :: string
  SparkDriverRole :: string

text \<open>
  The cluster store answers a creation request, made in a namespace, with the object
  as the server stored it or with an error.  The requests made are logged in order.
\<close>

record kubeClient =
  ServicesCreate :: "string \<Rightarrow> Service \<Rightarrow> error + Service"
  IngressesCreate :: "string \<Rightarrow> Ingress \<Rightarrow> error + Ingress"

datatype request =
    CreateService string Service
  | CreateIngress string Ingress

subsection \<open>The service of the driver UI\<close>

record SparkService =
  serviceName :: string
  serviceType :: string
  servicePort :: int32
  servicePortName :: string
  targetPort :: IntOrString
  serviceIP :: string
  serviceAnnotations :: gomap

text \<open>The object built by \<^verbatim>\<open>createSparkUIService\<close> before it is submitted.\<close>

definition uiService :: "helpers \<Rightarrow> SparkApplication \<Rightarrow> string \<Rightarrow> int32 \<Rightarrow> int32 \<Rightarrow> Service" where
  "uiService h app portName port tPort =
     (let service =
        \<lparr>svc_ObjectMeta =
           \<lparr>Name = getDefaultUIServiceName h app,
            Namespace = app_Namespace app,
            Labels = getResourceLabels h app,
            Annotations = None,
            OwnerReferences = [getOwnerReference h app]\<rparr>,
         svc_Spec =
           \<lparr>Ports = [\<lparr>sp_Name = portName, sp_Port = port,
                      sp_TargetPort = \<lparr>ios_Type = intstr_Int, IntVal = tPort, StrVal = []\<rparr>\<rparr>],
            Selector = Some [SparkAppNameLabel h \<mapsto> app_Name app,
                             SparkRoleLabel h \<mapsto> SparkDriverRole h],
            ss_Type = getUIServiceType h app,
            ClusterIP = []\<rparr>\<rparr>;
          serviceAnnotations' = getServiceAnnotations h app
      in if \<not> map_empty serviceAnnotations'
         then service\<lparr>svc_ObjectMeta := (svc_ObjectMeta service)\<lparr>Annotations := serviceAnnotations'\<rparr>\<rparr>
         else service)"

definition createSparkUIService ::
  "helpers \<Rightarrow> SparkApplication \<Rightarrow> kubeClient \<Rightarrow> request list
     \<Rightarrow> (error + SparkService) \<times> request list"
where
  "createSparkUIService h app kubeClient log =
     (let portName = getUIServicePortName app;
          (port, err) = getUIServicePort app
      in if err \<noteq> None
         then (Inl (Errorf (''invalid Spark UI servicePort: '' @ fmt_d (sint port))), log)
         else
           let (tPort, err) = getUITargetPort app
           in if err \<noteq> None
              then (Inl (Errorf (''invalid Spark UI targetPort: '' @ fmt_d (sint tPort))), log)
              else
                let service = uiService h app portName port tPort;
                    serviceAnnotations' = getServiceAnnotations h app;
                    log' = log @ [CreateService (app_Namespace app) service]
                in case ServicesCreate kubeClient (app_Namespace app) service of
                     Inl err \<Rightarrow> (Inl err, log')
                   | Inr service \<Rightarrow>
                       (case Ports (svc_Spec service) of
                          [] \<Rightarrow> (Inl PanicIndexOutOfRange, log')
                        | port0 # _ \<Rightarrow>
                            (Inr \<lparr>serviceName = Name (svc_ObjectMeta service),
                                  serviceType = ss_Type (svc_Spec service),
                                  servicePort = sp_Port port0,
                                  servicePortName = sp_Name port0,
                                  targetPort = sp_TargetPort port0,
                                  serviceIP = ClusterIP (svc_Spec service),
                                  serviceAnnotations = serviceAnnotations'\<rparr>,
                             log')))"

subsection \<open>The ingress of the driver UI\<close>

record SparkIngress =
  ingressName :: string
  ingressURL :: URL
  annotations :: gomap
  ingressTLS :: "IngressTLS list option"

definition rewriteTargetKey :: string where
  "rewriteTargetKey = ''nginx.ingress.kubernetes.io/rewrite-target''"

definition slice_empty :: "'a list option \<Rightarrow> bool" where
  "slice_empty xs = (case xs of None \<Rightarrow> True | Some l \<Rightarrow> l = [])"

text \<open>
  The object built by \<^verbatim>\<open>createSparkUIIngress\<close> before it is submitted.  Assigning a key
  of a map that is still nil first makes an empty map.
\<close>

definition uiIngress :: "helpers \<Rightarrow> SparkApplication \<Rightarrow> SparkService \<Rightarrow> URL \<Rightarrow> Ingress" where
  "uiIngress h app service ingressURL' =
     (let ingressResourceAnnotations = getIngressResourceAnnotations h app;
          ingressTlsHosts = getIngressTlsHosts h app;
          ingressURLPath = Path ingressURL';
          ingressURLPath =
            (if ingressURLPath \<noteq> [] \<and> ingressURLPath \<noteq> ''/''
             then ingressURLPath @ ''(/|$)(.*)'' else ingressURLPath);
          meta =
            \<lparr>Name = getDefaultUIIngressName h app,
             Namespace = app_Namespace app,
             Labels = getResourceLabels h app,
             Annotations = None,
             OwnerReferences = [getOwnerReference h app]\<rparr>;
          spec =
            \<lparr>TLS = None,
             Rules =
               [\<lparr>ir_Host = Host ingressURL',
                 HTTP = Some
                   \<lparr>Paths =
                      [\<lparr>ip_Path = ingressURLPath,
                        Backend =
                          \<lparr>ServiceName = serviceName service,
                           ib_ServicePort =
                             \<lparr>ios_Type = intstr_Int, IntVal = servicePort service, StrVal = []\<rparr>\<rparr>\<rparr>]\<rparr>\<rparr>]\<rparr>;
          meta = (if \<not> map_empty ingressResourceAnnotations
                  then meta\<lparr>Annotations := ingressResourceAnnotations\<rparr> else meta);
          meta = (if Path ingressURL' \<noteq> [] \<and> Path ingressURL' \<noteq> ''/''
                  then meta\<lparr>Annotations :=
                         Some ((case Annotations meta of None \<Rightarrow> Map.empty | Some m \<Rightarrow> m)
                               (rewriteTargetKey \<mapsto> ''/$2''))\<rparr>
                  else meta);
          spec = (if \<not> slice_empty ingressTlsHosts
                  then spec\<lparr>TLS := ingressTlsHosts\<rparr> else spec)
      in \<lparr>ing_ObjectMeta = meta, ing_Spec = spec\<rparr>)"

definition createSparkUIIngress ::
  "helpers \<Rightarrow> SparkApplication \<Rightarrow> SparkService \<Rightarrow> URL \<Rightarrow> kubeClient \<Rightarrow> request list
     \<Rightarrow> (error + SparkIngress) \<times> request list"
where
  "createSparkUIIngress h app service ingressURL' kubeClient log =
     (let ingress = uiIngress h app service ingressURL';
          log' = log @ [CreateIngress (Namespace (ing_ObjectMeta ingress)) ingress]
      in case IngressesCreate kubeClient (Namespace (ing_ObjectMeta ingress)) ingress of
           Inl err \<Rightarrow> (Inl err, log')
         | Inr _ \<Rightarrow>
             (Inr \<lparr>ingressName = Name (ing_ObjectMeta ingress),
                   ingressURL = ingressURL',
                   annotations = Annotations (ing_ObjectMeta ingress),
                   ingressTLS = TLS (ing_Spec ingress)\<rparr>,
              log'))"

subsection \<open>Package strings\<close>

definition between :: "char \<Rightarrow> char \<Rightarrow> char \<Rightarrow> bool" where
  "between lo hi c = (byte lo \<le> byte c \<and> byte c \<le> byte hi)"

definition hasPrefix :: "string \<Rightarrow> string \<Rightarrow> bool" where
  "hasPrefix s p = (take (length p) s = p)"

definition hasSuffix :: "string \<Rightarrow> string \<Rightarrow> bool" where
  "hasSuffix s p = (length p \<le> length s \<and> drop (length s - length p) s = p)"

text \<open>\<^verbatim>\<open>strings.Cut\<close> at a one-byte separator: \<open>None\<close> when the separator does not occur.\<close>

definition cut :: "string \<Rightarrow> char \<Rightarrow> (string \<times> string) option" where
  "cut s sep =
     (if sep \<in> set s
      then Some (takeWhile (\<lambda>c. c \<noteq> sep) s, tl (dropWhile (\<lambda>c. c \<noteq> sep) s))
      else None)"

definition indexByte :: "string \<Rightarrow> char \<Rightarrow> nat option" where
  "indexByte s c = (if c \<in> set s then Some (length (takeWhile (\<lambda>x. x \<noteq> c) s)) else None)"

definition lastIndexByte :: "string \<Rightarrow> char \<Rightarrow> nat option" where
  "lastIndexByte s c =
     (if c \<in> set s then Some (length s - 1 - length (takeWhile (\<lambda>x. x \<noteq> c) (rev s))) else None)"

fun index :: "string \<Rightarrow> string \<Rightarrow> nat option" where
  "index [] sub = (if sub = [] then Some 0 else None)"
| "index (c # s) sub =
     (if hasPrefix (c # s) sub then Some 0 else map_option Suc (index s sub))"

text \<open>\<^verbatim>\<open>strings.ToLower\<close> on the bytes of ASCII: a scheme has no other.\<close>

definition toLower :: "string \<Rightarrow> string" where
  "toLower s = map (\<lambda>c. if between CHR ''A'' CHR ''Z'' c then char_of (of_char c + (32::nat)) else c) s"

subsection \<open>The placeholders of the URL format\<close>

text \<open>
  \<^verbatim>\<open>ingressAppNameURLRegex\<close> is \<^verbatim>\<open>{{\s*[$]appName\s*}}\<close> and \<^verbatim>\<open>ingressAppNamespaceURLRegex\<close> is
  \<^verbatim>\<open>{{\s*[$]appNamespace\s*}}\<close>; the class \<^verbatim>\<open>\s\<close> of the regexp syntax is tab, newline, form
  feed, carriage return and space.  \<open>placeholder tok s\<close> is the length of the match of
  \<^verbatim>\<open>{{\s*[$]tok\s*}}\<close> at the start of \<open>s\<close>, if there is one.
\<close>

definition isSpace :: "char \<Rightarrow> bool" where
  "isSpace c = (byte c \<in> {0x09, 0x0A, 0x0C, 0x0D, 0x20})"

definition placeholder :: "string \<Rightarrow> string \<Rightarrow> nat option" where
  "placeholder tok s =
     (if \<not> hasPrefix s ''{{'' then None
      else
        let r1 = dropWhile isSpace (drop 2 s) in
        if \<not> hasPrefix r1 (CHR ''$'' # tok) then None
        else
          let r2 = dropWhile isSpace (drop (1 + length tok) r1) in
          if \<not> hasPrefix r2 ''}}'' then None
          else Some (length s - length r2 + 2))"

definition ingressAppNameURLRegex :: string where
  "ingressAppNameURLRegex = ''appName''"

definition ingressAppNamespaceURLRegex :: string where
  "ingressAppNamespaceURLRegex = ''appNamespace''"

subsection \<open>regexp: ReplaceAllString\<close>

text \<open>
  In the replacement string \<^verbatim>\<open>ReplaceAllString\<close> expands \<^verbatim>\<open>$\<close> signs as \<^verbatim>\<open>Expand\<close> does.
  \<open>extractName\<close> is \<^verbatim>\<open>extract\<close>, which reads the name after a \<^verbatim>\<open>$\<close>: a run of Unicode letters, digits and
  underscores, with or without braces.  The Unicode tables are outside the repository:
  \<open>nameLen str\<close> is the number of leading bytes of \<open>str\<close> that this run takes.
\<close>

text \<open>The number a name denotes, \<open>-1\<close> when it is not one.\<close>

fun name_num :: "int \<Rightarrow> string \<Rightarrow> int" where
  "name_num num [] = num"
| "name_num num (c # s) =
     (if \<not> between CHR ''0'' CHR ''9'' c \<or> num \<ge> 100000000 then - 1
      else name_num (num * 10 + int (unat (byte c)) - 48) s)"

definition extractName :: "(string \<Rightarrow> nat) \<Rightarrow> string \<Rightarrow> (string \<times> int \<times> string) option" where
  "extractName nameLen str0 =
     (if str0 = [] then None
      else
        let brace = (hd str0 = CHR ''{'');
            str = (if brace then tl str0 else str0);
            i = min (nameLen str) (length str)
        in if i = 0 then None
           else
             let name = take i str in
             if brace \<and> (i \<ge> length str \<or> str ! i \<noteq> CHR ''}'') then None
             else
               let i = (if brace then i + 1 else i);
                   num = name_num 0 name;
                   num = (if hd name = CHR ''0'' \<and> length name > 1 then - 1 else num)
               in Some (name, num, drop i str))"

text \<open>
  \<^verbatim>\<open>expand\<close> for a pattern without capture groups: \<open>m\<close> is the matched text, the only
  submatch there is (number 0); no submatch has a name.
\<close>

function expand :: "(string \<Rightarrow> nat) \<Rightarrow> string \<Rightarrow> string \<Rightarrow> string" where
  "expand nameLen template m =
     (case cut template CHR ''$'' of
        None \<Rightarrow> template
      | Some (before, after) \<Rightarrow>
          before @
          (if after \<noteq> [] \<and> hd after = CHR ''$''
           then CHR ''$'' # expand nameLen (tl after) m
           else case extractName nameLen after of
                  None \<Rightarrow> CHR ''$'' # expand nameLen after m
                | Some (name, num, rest) \<Rightarrow>
                    (if num \<ge> 0 then (if 2 * num + 1 < 2 then m else []) else [])
                    @ expand nameLen rest m))"
  by pat_completeness auto

text \<open>
  \<open>ReplaceAllString nameLen tok src repl\<close> is \<^verbatim>\<open>re.ReplaceAllString(src, repl)\<close> for the
  pattern \<^verbatim>\<open>{{\s*[$]tok\s*}}\<close>: the leftmost match is replaced and the search goes on
  behind it.  The pattern matches no empty string.
\<close>

function ReplaceAllString :: "(string \<Rightarrow> nat) \<Rightarrow> string \<Rightarrow> string \<Rightarrow> string \<Rightarrow> string" where
  "ReplaceAllString nameLen tok [] repl = []"
| "ReplaceAllString nameLen tok (c # s) repl =
     (case placeholder tok (c # s) of
        Some n \<Rightarrow> expand nameLen repl (take n (c # s))
                  @ ReplaceAllString nameLen tok (drop n (c # s)) repl
      | None \<Rightarrow> c # ReplaceAllString nameLen tok s repl)"
  by pat_completeness auto

subsection \<open>net/url: Parse\<close>

text \<open>
  The standard library's \<^verbatim>\<open>url.Parse\<close>, as in the Go releases 1.15 to 1.18 (later
  releases add the field \<^verbatim>\<open>OmitHost\<close>, which nothing here reads).
\<close>

datatype encoding =
    encodePath
  | encodePathSegment
  | encodeHost
  | encodeZone
  | encodeUserPassword
  | encodeQueryComponent
  | encodeFragment

definition ishex :: "char \<Rightarrow> bool" where
  "ishex c = (between CHR ''0'' CHR ''9'' c \<or> between CHR ''a'' CHR ''f'' c
              \<or> between CHR ''A'' CHR ''F'' c)"

definition unhex :: "char \<Rightarrow> byte" where
  "unhex c =
     (if between CHR ''0'' CHR ''9'' c then byte c - byte CHR ''0''
      else if between CHR ''a'' CHR ''f'' c then byte c - byte CHR ''a'' + 10
      else if between CHR ''A'' CHR ''F'' c then byte c - byte CHR ''A'' + 10
      else 0)"

definition shouldEscape :: "char \<Rightarrow> encoding \<Rightarrow> bool" where
  "shouldEscape c mode =
     (if between CHR ''a'' CHR ''z'' c \<or> between CHR ''A'' CHR ''Z'' c
         \<or> between CHR ''0'' CHR ''9'' c then False
      else if (mode = encodeHost \<or> mode = encodeZone)
              \<and> c \<in> set (''!$&'' @ [CHR 0x27] @ ''()*+,;=:[]<>'' @ [CHR 0x22]) then False
      else if c \<in> set ''-_.~'' then False
      else if c \<in> set ''$&+,/:;=?@'' \<and> mode = encodePath then c = CHR ''?''
      else if c \<in> set ''$&+,/:;=?@'' \<and> mode = encodePathSegment
        then c = CHR ''/'' \<or> c = CHR '';'' \<or> c = CHR '','' \<or> c = CHR ''?''
      else if c \<in> set ''$&+,/:;=?@'' \<and> mode = encodeUserPassword
        then c = CHR ''@'' \<or> c = CHR ''/'' \<or> c = CHR ''?'' \<or> c = CHR '':''
      else if c \<in> set ''$&+,/:;=?@'' \<and> mode = encodeQueryComponent then True
      else if c \<in> set ''$&+,/:;=?@'' \<and> mode = encodeFragment then False
      else if mode = encodeFragment \<and> c \<in> set ''!()*'' then False
      else True)"

text \<open>The first loop of \<^verbatim>\<open>unescape\<close>: the error of the first malformed place, if any.\<close>

fun unescape_check :: "encoding \<Rightarrow> string \<Rightarrow> url_err option" where
  "unescape_check mode [] = None"
| "unescape_check mode (c # s) =
     (if c = CHR ''%'' then
        (case s of
           h1 # h2 # rest \<Rightarrow>
             if \<not> ishex h1 \<or> \<not> ishex h2 then Some (EscapeError (take 3 (c # s)))
             else if mode = encodeHost \<and> unhex h1 < 8 \<and> take 3 (c # s) \<noteq> ''%25''
               then Some (EscapeError (take 3 (c # s)))
             else if mode = encodeZone
                     \<and> take 3 (c # s) \<noteq> ''%25''
                     \<and> push_bit 4 (unhex h1) OR unhex h2 \<noteq> byte CHR '' ''
                     \<and> shouldEscape (char_of (unat (push_bit 4 (unhex h1) OR unhex h2))) encodeHost
               then Some (EscapeError (take 3 (c # s)))
             else unescape_check mode rest
         | _ \<Rightarrow> Some (EscapeError (take 3 (c # s))))
      else if (mode = encodeHost \<or> mode = encodeZone) \<and> byte c < 0x80
              \<and> shouldEscape c encodeHost
        then Some (InvalidHostError [c])
      else unescape_check mode s)"

text \<open>The second loop of \<^verbatim>\<open>unescape\<close>, on a string the first loop accepted.\<close>

fun unescape_decode :: "encoding \<Rightarrow> string \<Rightarrow> string" where
  "unescape_decode mode [] = []"
| "unescape_decode mode (c # s) =
     (if c = CHR ''%'' then
        (case s of
           h1 # h2 # rest \<Rightarrow>
             char_of (unat (push_bit 4 (unhex h1) OR unhex h2)) # unescape_decode mode rest
         | _ \<Rightarrow> [])
      else if c = CHR ''+'' then
        (if mode = encodeQueryComponent then CHR '' '' else CHR ''+'') # unescape_decode mode s
      else c # unescape_decode mode s)"

definition unescape :: "string \<Rightarrow> encoding \<Rightarrow> url_err + string" where
  "unescape s mode =
     (case unescape_check mode s of
        Some err \<Rightarrow> Inl err
      | None \<Rightarrow>
          if CHR ''%'' \<notin> set s \<and> \<not> (mode = encodeQueryComponent \<and> CHR ''+'' \<in> set s)
          then Inr s
          else Inr (unescape_decode mode s))"

definition upperhex :: string where
  "upperhex = ''0123456789ABCDEF''"

definition escape :: "string \<Rightarrow> encoding \<Rightarrow> string" where
  "escape s mode =
     (if \<not> list_ex (\<lambda>c. shouldEscape c mode) s then s
      else concat (map (\<lambda>c.
             if shouldEscape c mode then
               (if c = CHR '' '' \<and> mode = encodeQueryComponent then ''+''
                else [CHR ''%'', upperhex ! unat (drop_bit 4 (byte c)),
                      upperhex ! unat (byte c AND 15)])
             else [c]) s))"

definition emptyURL :: URL where
  "emptyURL = \<lparr>Scheme = [], Opaque = [], User = None, Host = [], Path = [], RawPath = [],
               ForceQuery = False, RawQuery = [], Fragment = [], RawFragment = []\<rparr>"

fun getScheme_from :: "string \<Rightarrow> nat \<Rightarrow> string \<Rightarrow> url_err + string \<times> string" where
  "getScheme_from rawURL i [] = Inr ([], rawURL)"
| "getScheme_from rawURL i (c # cs) =
     (if between CHR ''a'' CHR ''z'' c \<or> between CHR ''A'' CHR ''Z'' c
      then getScheme_from rawURL (i + 1) cs
      else if between CHR ''0'' CHR ''9'' c \<or> c = CHR ''+'' \<or> c = CHR ''-'' \<or> c = CHR ''.''
      then (if i = 0 then Inr ([], rawURL) else getScheme_from rawURL (i + 1) cs)
      else if c = CHR '':''
      then (if i = 0 then Inl MissingProtocolScheme
            else Inr (take i rawURL, drop (i + 1) rawURL))
      else Inr ([], rawURL))"

definition getScheme :: "string \<Rightarrow> url_err + string \<times> string" where
  "getScheme rawURL = getScheme_from rawURL 0 rawURL"

definition stringContainsCTLByte :: "string \<Rightarrow> bool" where
  "stringContainsCTLByte s = list_ex (\<lambda>c. byte c < 0x20 \<or> byte c = 0x7F) s"

definition validOptionalPort :: "string \<Rightarrow> bool" where
  "validOptionalPort port =
     (if port = [] then True
      else if hd port \<noteq> CHR '':'' then False
      else list_all (\<lambda>b. between CHR ''0'' CHR ''9'' b) (tl port))"

definition validUserinfo :: "string \<Rightarrow> bool" where
  "validUserinfo s =
     list_all (\<lambda>r. between CHR ''A'' CHR ''Z'' r \<or> between CHR ''a'' CHR ''z'' r
                  \<or> between CHR ''0'' CHR ''9'' r
                  \<or> r \<in> set (''-._:~!$&'' @ [CHR 0x27] @ ''()*+,;=%@'')) s"

definition parseHost :: "string \<Rightarrow> url_err + string" where
  "parseHost host =
     (if hasPrefix host ''['' then
        (case lastIndexByte host CHR '']'' of
           None \<Rightarrow> Inl MissingBracket
         | Some i \<Rightarrow>
             let colonPort = drop (i + 1) host in
             if \<not> validOptionalPort colonPort then Inl (InvalidPort colonPort)
             else
               (case index (take i host) ''%25'' of
                  Some zone \<Rightarrow>
                    (case unescape (take zone host) encodeHost of
                       Inl err \<Rightarrow> Inl err
                     | Inr host1 \<Rightarrow>
                         (case unescape (take (i - zone) (drop zone host)) encodeZone of
                            Inl err \<Rightarrow> Inl err
                          | Inr host2 \<Rightarrow>
                              (case unescape (drop i host) encodeHost of
                                 Inl err \<Rightarrow> Inl err
                               | Inr host3 \<Rightarrow> Inr (host1 @ host2 @ host3))))
                | None \<Rightarrow> unescape host encodeHost))
      else
        (case lastIndexByte host CHR '':'' of
           Some i \<Rightarrow>
             let colonPort = drop i host in
             if \<not> validOptionalPort colonPort then Inl (InvalidPort colonPort)
             else unescape host encodeHost
         | None \<Rightarrow> unescape host encodeHost))"

definition parseAuthority :: "string \<Rightarrow> url_err + Userinfo option \<times> string" where
  "parseAuthority authority =
     (let i = lastIndexByte authority CHR ''@'' in
      case (case i of None \<Rightarrow> parseHost authority
                    | Some i \<Rightarrow> parseHost (drop (i + 1) authority)) of
        Inl err \<Rightarrow> Inl err
      | Inr host \<Rightarrow>
          (case i of
             None \<Rightarrow> Inr (None, host)
           | Some i \<Rightarrow>
               let userinfo = take i authority in
               if \<not> validUserinfo userinfo then Inl InvalidUserinfo
               else
                 (case cut userinfo CHR '':'' of
                    None \<Rightarrow>
                      (case unescape userinfo encodeUserPassword of
                         Inl err \<Rightarrow> Inl err
                       | Inr userinfo \<Rightarrow>
                           Inr (Some \<lparr>username = userinfo, password = [],
                                      passwordSet = False\<rparr>, host))
                  | Some (username', password') \<Rightarrow>
                      (case unescape username' encodeUserPassword of
                         Inl err \<Rightarrow> Inl err
                       | Inr username' \<Rightarrow>
                           (case unescape password' encodeUserPassword of
                              Inl err \<Rightarrow> Inl err
                            | Inr password' \<Rightarrow>
                                Inr (Some \<lparr>username = username', password = password',
                                           passwordSet = True\<rparr>, host))))))"

definition setPath :: "URL \<Rightarrow> string \<Rightarrow> url_err + URL" where
  "setPath u p =
     (case unescape p encodePath of
        Inl err \<Rightarrow> Inl err
      | Inr path \<Rightarrow>
          Inr (u\<lparr>Path := path,
                 RawPath := (if p = escape path encodePath then [] else p)\<rparr>))"

definition setFragment :: "URL \<Rightarrow> string \<Rightarrow> url_err + URL" where
  "setFragment u f =
     (case unescape f encodeFragment of
        Inl err \<Rightarrow> Inl err
      | Inr frag \<Rightarrow>
          Inr (u\<lparr>Fragment := frag,
                 RawFragment := (if f = escape frag encodeFragment then [] else f)\<rparr>))"

text \<open>\<^verbatim>\<open>parse(rawURL, false)\<close>: the branches for \<^verbatim>\<open>viaRequest\<close> are never taken.\<close>

definition parse :: "string \<Rightarrow> url_err + URL" where
  "parse rawURL =
     (if stringContainsCTLByte rawURL then Inl InvalidControlCharacter
      else if rawURL = ''*'' then Inr (emptyURL\<lparr>Path := ''*''\<rparr>)
      else
        case getScheme rawURL of
          Inl err \<Rightarrow> Inl err
        | Inr (scheme, rest) \<Rightarrow>
            let url = emptyURL\<lparr>Scheme := toLower scheme\<rparr>;
                (url, rest) =
                  (if hasSuffix rest ''?'' \<and> count_list rest CHR ''?'' = 1
                   then (url\<lparr>ForceQuery := True\<rparr>, take (length rest - 1) rest)
                   else case cut rest CHR ''?'' of
                          Some (rest, query) \<Rightarrow> (url\<lparr>RawQuery := query\<rparr>, rest)
                        | None \<Rightarrow> (url, rest))
            in if \<not> hasPrefix rest ''/'' \<and> Scheme url \<noteq> [] then Inr (url\<lparr>Opaque := rest\<rparr>)
               else if \<not> hasPrefix rest ''/''
                       \<and> CHR '':'' \<in> set (takeWhile (\<lambda>c. c \<noteq> CHR ''/'') rest)
               then Inl FirstPathSegmentColon
               else if (Scheme url \<noteq> [] \<or> \<not> hasPrefix rest ''///'') \<and> hasPrefix rest ''//''
               then
                 (let authority = drop 2 rest;
                      rest = (case indexByte authority CHR ''/'' of
                                Some i \<Rightarrow> drop i authority | None \<Rightarrow> []);
                      authority = (case indexByte authority CHR ''/'' of
                                     Some i \<Rightarrow> take i authority | None \<Rightarrow> authority)
                  in case parseAuthority authority of
                       Inl err \<Rightarrow> Inl err
                     | Inr (user, host) \<Rightarrow> setPath (url\<lparr>User := user, Host := host\<rparr>) rest)
               else setPath url rest)"

definition Parse :: "string \<Rightarrow> error + URL" where
  "Parse rawURL =
     (let u = (case cut rawURL CHR ''#'' of Some (u, frag) \<Rightarrow> u | None \<Rightarrow> rawURL);
          frag = (case cut rawURL CHR ''#'' of Some (u, frag) \<Rightarrow> frag | None \<Rightarrow> [])
      in case parse u of
           Inl err \<Rightarrow> Inl (UrlError ''parse'' u err)
         | Inr url \<Rightarrow>
             if frag = [] then Inr url
             else case setFragment url frag of
                    Inl err \<Rightarrow> Inl (UrlError ''parse'' rawURL err)
                  | Inr url \<Rightarrow> Inr url)"

subsection \<open>The URL of the ingress\<close>

definition getSparkUIingressURL ::
  "(string \<Rightarrow> nat) \<Rightarrow> string \<Rightarrow> string \<Rightarrow> string \<Rightarrow> error + URL"
where
  "getSparkUIingressURL nameLen ingressURLFormat appName appNamespace =
     (let ingressURL' =
            ReplaceAllString nameLen ingressAppNamespaceURLRegex
              (ReplaceAllString nameLen ingressAppNameURLRegex ingressURLFormat appName)
              appNamespace
      in case Parse ingressURL' of
           Inl err \<Rightarrow> Inl err
         | Inr parsedURL \<Rightarrow>
             if Scheme parsedURL = [] then
               (case Parse (''http://'' @ ingressURL') of
                  Inl err \<Rightarrow> Inl err
                | Inr parsedURL \<Rightarrow> Inr parsedURL)
             else Inr parsedURL)"

subsection \<open>The words of the specification\<close>

text \<open>
  A valid base-10 integer is an optional sign followed by one decimal digit or more;
  \<open>base10_value\<close> is the integer it denotes.
\<close>

definition isDigit :: "char \<Rightarrow> bool" where
  "isDigit c = between CHR ''0'' CHR ''9'' c"

fun decimal :: "nat \<Rightarrow> string \<Rightarrow> nat" where
  "decimal a [] = a"
| "decimal a (c # s) = decimal (10 * a + (of_char c - 48)) s"

definition base10 :: "string \<Rightarrow> bool" where
  "base10 s =
     (let ds = (if s \<noteq> [] \<and> (hd s = CHR ''+'' \<or> hd s = CHR ''-'') then tl s else s)
      in ds \<noteq> [] \<and> list_all isDigit ds)"

definition base10_value :: "string \<Rightarrow> int" where
  "base10_value s =
     (if s \<noteq> [] \<and> hd s = CHR ''-'' then - int (decimal 0 (tl s))
      else if s \<noteq> [] \<and> hd s = CHR ''+'' then int (decimal 0 (tl s))
      else int (decimal 0 s))"


text \<open>\<^verbatim>\<open>strings.Contains\<close>, for what an error message includes.\<close>

definition contains :: "string \<Rightarrow> string \<Rightarrow> bool" where
  "contains s substr = (index s substr \<noteq> None)"


text \<open>
  Replacing every occurrence of a placeholder by a value: the leftmost occurrence
  first, then the occurrences in what follows it.
\<close>

function substitute :: "string \<Rightarrow> string \<Rightarrow> string \<Rightarrow> string" where
  "substitute tok [] v = []"
| "substitute tok (c # s) v =
     (case placeholder tok (c # s) of
        Some n \<Rightarrow> v @ substitute tok (drop n (c # s)) v
      | None \<Rightarrow> c # substitute tok s v)"
  by pat_completeness auto


text \<open>
  The names of workloads and namespaces are names of Kubernetes objects: the cluster
  admits lowercase letters, digits, \<^verbatim>\<open>-\<close> and \<^verbatim>\<open>.\<close> in them and nothing else.
\<close>

definition isNameChar :: "char \<Rightarrow> bool" where
  "isNameChar c = (between CHR ''a'' CHR ''z'' c \<or> between CHR ''0'' CHR ''9'' c
                   \<or> c = CHR ''-'' \<or> c = CHR ''.'')"

definition kubernetesName :: "string \<Rightarrow> bool" where
  "kubernetesName s = list_all isNameChar s"

text \<open>Parsing, with \<^verbatim>\<open>http://\<close> assumed when the string has no scheme.\<close>

definition parse_defaulting_scheme :: "string \<Rightarrow> error + URL" where
  "parse_defaulting_scheme s =
     (case Parse s of
        Inl err \<Rightarrow> Inl err
      | Inr url \<Rightarrow> if Scheme url = [] then Parse (''http://'' @ s) else Inr url)"


subsection \<open>Sample workloads, collaborators and stores\<close>

text \<open>
  Concrete inputs at which the theorems below are applied: a workload \<open>job1\<close> in the
  namespace \<open>ns1\<close>, accessors in the manner of the operator, a store that answers with
  the object it was sent and one that stamps an annotation and a cluster IP on it.
\<close>

definition app_with :: "gomap \<Rightarrow> SparkUIConfiguration option \<Rightarrow> SparkApplication" where
  "app_with conf opts =
     \<lparr>app_Name = ''job1'', app_Namespace = ''ns1'',
      app_Spec = \<lparr>SparkConf = conf, SparkUIOptions = opts\<rparr>\<rparr>"

definition sample_helpers :: "gomap \<Rightarrow> gomap \<Rightarrow> helpers" where
  "sample_helpers svcAnn ingAnn =
     \<lparr>getIngressResourceAnnotations = (\<lambda>app. ingAnn),
      getIngressTlsHosts = (\<lambda>app. None),
      getDefaultUIIngressName = (\<lambda>app. app_Name app @ ''-ui-ingress''),
      getDefaultUIServiceName = (\<lambda>app. app_Name app @ ''-ui-svc''),
      getResourceLabels = (\<lambda>app. Some [''sparkoperator.k8s.io/app-name'' \<mapsto> app_Name app]),
      getOwnerReference = (\<lambda>app. \<lparr>or_APIVersion = ''sparkoperator.k8s.io/v1beta2'',
                                    or_Kind = ''SparkApplication'',
                                    or_Name = app_Name app, or_UID = ''uid-1''\<rparr>),
      getUIServiceType = (\<lambda>app. ''ClusterIP''),
      getServiceAnnotations = (\<lambda>app. svcAnn),
      SparkAppNameLabel = ''sparkoperator.k8s.io/app-name'',
      SparkRoleLabel = ''spark-role'',
      SparkDriverRole = ''driver''\<rparr>"

definition stamp :: gomap where
  "stamp = Some [''store/seen'' \<mapsto> ''true'']"

definition echoStore :: kubeClient where
  "echoStore = \<lparr>ServicesCreate = (\<lambda>ns svc. Inr svc), IngressesCreate = (\<lambda>ns ing. Inr ing)\<rparr>"

definition stampingStore :: kubeClient where
  "stampingStore =
     \<lparr>ServicesCreate = (\<lambda>ns svc. Inr (svc\<lparr>svc_ObjectMeta := (svc_ObjectMeta svc)\<lparr>Annotations := stamp\<rparr>,
                                           svc_Spec := (svc_Spec svc)\<lparr>ClusterIP := ''10.0.0.7''\<rparr>\<rparr>)),
      IngressesCreate = (\<lambda>ns ing. Inr (ing\<lparr>ing_ObjectMeta := (ing_ObjectMeta ing)\<lparr>Annotations := stamp\<rparr>\<rparr>))\<rparr>"

definition url_with_path :: "string \<Rightarrow> URL" where
  "url_with_path p = emptyURL\<lparr>Scheme := ''http'', Host := ''job1.example.com'', Path := p\<rparr>"

definition sample_service :: SparkService where
  "sample_service =
     \<lparr>serviceName = ''job1-ui-svc'', serviceType = ''ClusterIP'', servicePort = 4040,
      servicePortName = ''spark-driver-ui-port'',
      targetPort = \<lparr>ios_Type = intstr_Int, IntVal = 4040, StrVal = []\<rparr>,
      serviceIP = ''10.0.0.7'', serviceAnnotations = None\<rparr>"


text \<open>
  A name scanner for the \<^verbatim>\<open>$\<close> names of a replacement: the run of ASCII letters,
  digits and underscores, which is the run that \<^verbatim>\<open>extract\<close> takes on ASCII strings.
\<close>

definition asciiNameLen :: "string \<Rightarrow> nat" where
  "asciiNameLen str =
     length (takeWhile (\<lambda>c. between CHR ''a'' CHR ''z'' c \<or> between CHR ''A'' CHR ''Z'' c
                            \<or> between CHR ''0'' CHR ''9'' c \<or> c = CHR ''_'') str)"

text \<open>The paths of an ingress, and the descriptors that the stamping store leads to.\<close>

definition ingressPaths :: "Ingress \<Rightarrow> string list" where
  "ingressPaths ing =
     map ip_Path (concat (map (\<lambda>r. case HTTP r of None \<Rightarrow> [] | Some v \<Rightarrow> Paths v)
                              (Rules (ing_Spec ing))))"

definition stamped_service :: SparkService where
  "stamped_service =
     \<lparr>serviceName = ''job1-ui-svc'', serviceType = ''ClusterIP'', servicePort = 4040,
      servicePortName = ''spark-driver-ui-port'',
      targetPort = \<lparr>ios_Type = intstr_Int, IntVal = 4040, StrVal = []\<rparr>,
      serviceIP = ''10.0.0.7'', serviceAnnotations = None\<rparr>"

definition root_ingress :: SparkIngress where
  "root_ingress =
     \<lparr>ingressName = ''job1-ui-ingress'', ingressURL = url_with_path ''/'',
      annotations = None, ingressTLS = None\<rparr>"

section \<open>Termination of the replacement functions\<close>

lemma extract_rest_length:
  "extractName nameLen str0 = Some (name, num, rest) \<Longrightarrow> length rest \<le> length str0"
  by (auto simp: extractName_def Let_def split: if_splits)

lemma cut_after_length: "cut s sep = Some (before, after) \<Longrightarrow> length after < length s"
proof -
  assume c: "cut s sep = Some (before, after)"
  then have "sep \<in> set s" and a: "after = tl (dropWhile (\<lambda>c. c \<noteq> sep) s)"
    by (auto simp: cut_def split: if_splits)
  then have "dropWhile (\<lambda>c. c \<noteq> sep) s \<noteq> []" by simp
  then have "length after < length (dropWhile (\<lambda>c. c \<noteq> sep) s)"
    using a by (cases "dropWhile (\<lambda>c. c \<noteq> sep) s") auto
  also have "\<dots> \<le> length s" by (rule length_dropWhile_le)
  finally show ?thesis .
qed

termination expand
proof (relation "measure (\<lambda>(nameLen, template, m). length template)")
  show "wf (measure (\<lambda>(nameLen, template, m). length template))" by simp
next
  fix nameLen :: "string \<Rightarrow> nat" and template m :: string and x2 before after
  assume "cut template CHR ''$'' = Some x2" "(before, after) = x2"
  then have l: "length after < length template"
    using cut_after_length [of template "CHR ''$''" before after] by simp
  {
    assume "after \<noteq> [] \<and> hd after = CHR ''$''"
    then show "((nameLen, tl after, m), (nameLen, template, m))
                 \<in> measure (\<lambda>(nameLen, template, m). length template)"
      using l by simp
  }
  {
    assume "extractName nameLen after = None"
    show "((nameLen, after, m), (nameLen, template, m))
            \<in> measure (\<lambda>(nameLen, template, m). length template)"
      using l by simp
  }
  {
    fix x2a name y num rest
    assume "extractName nameLen after = Some x2a" "(name, y) = x2a" "(num, rest) = y"
    then have "length rest \<le> length after"
      using extract_rest_length [of nameLen after name num rest] by simp
    then show "((nameLen, rest, m), (nameLen, template, m))
                 \<in> measure (\<lambda>(nameLen, template, m). length template)"
      using l by simp
  }
qed

declare expand.simps [simp del]

lemma placeholder_pos: "placeholder tok s = Some n \<Longrightarrow> 0 < n"
  by (auto simp: placeholder_def Let_def split: if_splits)

termination ReplaceAllString
  by (relation "measure (\<lambda>(nameLen, tok, src, repl). length src)")
     (auto dest: placeholder_pos)

termination substitute
  by (relation "measure (\<lambda>(tok, src, v). length src)") (auto dest: placeholder_pos)

declare dec.simps [simp del]


section \<open>Port resolution\<close>

subsection \<open>Decimal digits and the two loops of strconv\<close>

lemma unat_byte: "unat (byte c) = of_char c"
proof -
  have "byte c = of_nat (of_char c)" by (simp add: byte_def of_nat_of_char)
  moreover have "(of_char c :: nat) < 256"
    by (metis of_char_mod_256 mod_less_divisor zero_less_numeral)
  ultimately show ?thesis by (simp add: unat_of_nat)
qed

lemma isDigit_nat: "isDigit c \<longleftrightarrow> 48 \<le> (of_char c :: nat) \<and> (of_char c :: nat) \<le> 57"
  by (simp add: isDigit_def between_def word_le_nat_alt unat_byte)

lemma digit_sub:
  assumes "isDigit c"
  shows "byte c - 0x30 \<le> 9" and "unat (byte c - 0x30) = of_char c - 48"
proof -
  from assms have r: "48 \<le> (of_char c :: nat)" "(of_char c :: nat) \<le> 57"
    by (simp_all add: isDigit_nat)
  have "unat (byte c - 0x30) = unat (byte c) - unat (0x30 :: byte)"
    by (rule unat_sub) (simp add: word_le_nat_alt unat_byte r)
  then show u: "unat (byte c - 0x30) = of_char c - 48" by (simp add: unat_byte)
  show "byte c - 0x30 \<le> 9" using u r by (simp add: word_le_nat_alt)
qed

lemma nondigit_sub:
  assumes "\<not> isDigit c"
  shows "byte c - 0x30 > 9"
proof (cases "48 \<le> (of_char c :: nat)")
  case True
  with assms have r: "(of_char c :: nat) > 57" by (simp add: isDigit_nat)
  have "unat (byte c - 0x30) = unat (byte c) - unat (0x30 :: byte)"
    by (rule unat_sub) (simp add: word_le_nat_alt unat_byte True)
  then show ?thesis using r by (simp add: word_less_nat_alt unat_byte)
next
  case False
  then have lt: "(of_char c :: nat) < 48" by simp
  have "unat (byte c - 0x30) = (if unat (0x30 :: byte) \<le> unat (byte c) then unat (byte c) - unat (0x30 :: byte) else 2 ^ 8 + unat (byte c) - unat (0x30 :: byte))"
    by (simp add: unat_sub_if')
  then show ?thesis using lt by (simp add: word_less_nat_alt unat_byte)
qed

lemma decimal_ge: "a \<le> decimal a s"
proof (induction s arbitrary: a)
  case Nil then show ?case by simp
next
  case (Cons c s)
  have "a \<le> 10 * a + (of_char c - 48)" by simp
  also have "\<dots> \<le> decimal (10 * a + (of_char c - 48)) s" by (rule Cons.IH)
  finally show ?case by simp
qed

lemma unat_ucast_byte: "unat (ucast (d :: byte) :: 64 word) = unat d"
  by (simp add: unsigned_ucast_eq take_bit_nat_eq_self unsigned_less [where 'b = 8, THEN less_trans])

lemma step64:
  fixes n :: "64 word" and d :: byte
  assumes "10 * unat n + unat d < 2 ^ 64"
  shows "unat (n * 10 + ucast d) = 10 * unat n + unat d"
proof -
  have m: "unat (n * 10) = unat n * 10"
    using assms by (simp add: unat_mult_lem [THEN iffD1])
  have "unat (n * 10 + ucast d) = unat (n * 10) + unat (ucast d :: 64 word)"
    using assms m by (simp add: unat_add_lem [THEN iffD1] unat_ucast_byte)
  then show ?thesis using m by (simp add: unat_ucast_byte)
qed

lemma atoi_digits_ok:
  "list_all isDigit s \<Longrightarrow> decimal (unat n) s < 2 ^ 64
     \<Longrightarrow> atoi_digits n s = Some (of_nat (decimal (unat n) s))"
proof (induction s arbitrary: n)
  case Nil then show ?case by simp
next
  case (Cons c s)
  then have d: "isDigit c" and ds: "list_all isDigit s" by simp_all
  let ?ch = "byte c - 0x30"
  have le: "10 * unat n + (of_char c - 48) \<le> decimal (10 * unat n + (of_char c - 48)) s"
    by (rule decimal_ge)
  have u: "unat (n * 10 + ucast ?ch) = 10 * unat n + (of_char c - 48)"
    using step64 [of n ?ch] le Cons.prems(2) digit_sub(2) [OF d] by simp
  have "atoi_digits (n * 10 + ucast ?ch) s = Some (of_nat (decimal (unat (n * 10 + ucast ?ch)) s))"
    by (rule Cons.IH [OF ds]) (use Cons.prems(2) u in simp)
  then show ?case using digit_sub(1) [OF d] u by (simp add: Let_def not_less [symmetric])
qed

lemma atoi_digits_bad: "\<not> list_all isDigit s \<Longrightarrow> atoi_digits n s = None"
proof (induction s arbitrary: n)
  case Nil then show ?case by simp
next
  case (Cons c s)
  show ?case
  proof (cases "isDigit c")
    case True
    with Cons.prems have "\<not> list_all isDigit s" by simp
    then show ?thesis using Cons.IH by (simp add: Let_def)
  next
    case False
    then show ?thesis using nondigit_sub [OF False] by (simp add: Let_def)
  qed
qed


lemma isDigit_byte: "isDigit c \<longleftrightarrow> 0x30 \<le> byte c \<and> byte c \<le> 0x39"
  by (simp add: isDigit_def between_def byte_def)

lemma letter_digit_ge:
  fixes x :: byte
  assumes "0x61 \<le> x" "x \<le> 0x7A"
  shows "10 \<le> x - 0x57"
proof -
  have "(0x57 :: byte) \<le> x" using assms(1) by (simp add: word_le_nat_alt)
  then have "unat (x - 0x57) = unat x - 0x57" by (simp add: unat_sub)
  then show ?thesis using assms(1) by (simp add: word_le_nat_alt)
qed

lemma parseUint_loop_ok:
  "list_all isDigit s \<Longrightarrow> decimal (unat n) s < 2 ^ 64
     \<Longrightarrow> parseUint_loop n s = (of_nat (decimal (unat n) s), None)"
proof (induction s arbitrary: n)
  case Nil then show ?case by simp
next
  case (Cons c s)
  then have d: "isDigit c" and ds: "list_all isDigit s" by simp_all
  let ?d = "byte c - 0x30"
  have le: "10 * unat n + (of_char c - 48) \<le> decimal (10 * unat n + (of_char c - 48)) s"
    by (rule decimal_ge)
  then have lt: "10 * unat n + (of_char c - 48) < 2 ^ 64"
    using Cons.prems(2) by simp
  have u: "unat (n * 10 + ucast ?d) = 10 * unat n + (of_char c - 48)"
    using step64 [of n ?d] lt digit_sub(2) [OF d] by simp
  have m: "unat (n * 10) = unat n * 10"
    using lt by (simp add: unat_mult_lem [THEN iffD1])
  have c1: "\<not> 10 \<le> ?d" using digit_sub [OF d] by (simp add: word_le_nat_alt)
  have c2: "\<not> cutoff10 \<le> n" using lt by (simp add: cutoff10_def word_le_nat_alt)
  have c3: "\<not> n * 10 + ucast ?d < n * 10" using u m by (simp add: word_less_nat_alt)
  have c4: "\<not> maxVal64 < n * 10 + ucast ?d" by (simp add: maxVal64_def word_less_nat_alt) 
      (use unsigned_less [of "n * 10 + ucast ?d", where 'a = nat] in simp)
  have "parseUint_loop (n * 10 + ucast ?d) s
          = (of_nat (decimal (unat (n * 10 + ucast ?d)) s), None)"
    by (rule Cons.IH [OF ds]) (use Cons.prems(2) u in simp)
  then show ?case using d c1 c2 c3 c4 u by (simp add: Let_def isDigit_byte)
qed

lemma parseUint_loop_bad:
  "\<not> list_all isDigit s \<Longrightarrow>
     parseUint_loop n s = (0, Some ErrSyntax) \<or> parseUint_loop n s = (maxVal64, Some ErrRange)"
proof (induction s arbitrary: n)
  case Nil then show ?case by simp
next
  case (Cons c s)
  show ?case
  proof (cases "isDigit c")
    case True
    with Cons.prems have "\<not> list_all isDigit s" by simp
    then show ?thesis using Cons.IH by (simp add: Let_def)
  next
    case False
    then have nd: "(0x30 \<le> byte c \<and> byte c \<le> 0x39) = False"
      by (simp add: isDigit_byte)
    show ?thesis
    proof (cases "0x61 \<le> lower (byte c) \<and> lower (byte c) \<le> 0x7A")
      case True
      then have "10 \<le> lower (byte c) - 0x57" by (simp add: letter_digit_ge)
      then show ?thesis by (simp add: Let_def nd)
    next
      case False
      then have "(0x61 \<le> lower (byte c) \<and> lower (byte c) \<le> 0x7A) = False" by simp
      then show ?thesis by (simp add: Let_def nd)
    qed
  qed
qed

lemma Atoi_ok:
  assumes b: "base10 s" and lo: "- (2 ^ 63) \<le> base10_value s" and hi: "base10_value s < 2 ^ 63"
  shows "Atoi s = (word_of_int (base10_value s), None)"
proof -
  define signed where "signed = (hd s = CHR ''-'' \<or> hd s = CHR ''+'')"
  define s1 where "s1 = (if signed then tl s else s)"
  from b have ne: "s \<noteq> []" by (auto simp: base10_def)
  from b ne have s1: "s1 \<noteq> []" "list_all isDigit s1"
    by (auto simp: base10_def s1_def signed_def Let_def split: if_splits)
  have v: "base10_value s = (if hd s = CHR ''-'' then - int (decimal 0 s1) else int (decimal 0 s1))"
    using ne by (auto simp: base10_value_def s1_def signed_def)
  then have bound: "decimal 0 s1 \<le> 2 ^ 63" "hd s \<noteq> CHR ''-'' \<Longrightarrow> decimal 0 s1 < 2 ^ 63"
    using lo hi by (auto split: if_splits)
  then have b64: "decimal (unat (0 :: 64 word)) s1 < 2 ^ 64" by simp
  have w: "(word_of_int (base10_value s) :: 64 word)
             = (if hd s = CHR ''-'' then - of_nat (decimal 0 s1) else of_nat (decimal 0 s1))"
    by (simp add: v)
  show ?thesis
  proof (cases "length s < 19")
    case True
    have "atoi_digits 0 s1 = Some (of_nat (decimal 0 s1))"
      using atoi_digits_ok [OF s1(2) b64] by simp
    then show ?thesis
      using True ne s1 w by (simp add: Atoi_def Let_def s1_def signed_def)
  next
    case False
    have "parseUint_loop 0 s1 = (of_nat (decimal 0 s1), None)"
      using parseUint_loop_ok [OF s1(2) b64] by simp
    then have pu: "ParseUint s1 = (of_nat (decimal 0 s1), None)"
      using s1 by (simp add: ParseUint_def)
    have un: "unat (of_nat (decimal 0 s1) :: 64 word) = decimal 0 s1"
      using bound(1) by (simp add: unat_of_nat)
    have s1': "(if hd s = CHR ''+'' \<or> hd s = CHR ''-'' then tl s else s) = s1"
      by (auto simp: s1_def signed_def)
    have c1: "hd s \<noteq> CHR ''-'' \<Longrightarrow> \<not> cutoff63 \<le> (of_nat (decimal 0 s1) :: 64 word)"
      using bound(2) un by (simp add: cutoff63_def word_le_nat_alt)
    have c2: "\<not> cutoff63 < (of_nat (decimal 0 s1) :: 64 word)"
      using bound(1) un by (simp add: cutoff63_def word_less_nat_alt)
    have "ParseInt s = (word_of_int (base10_value s), None)"
      using ne pu c1 c2 w by (auto simp: ParseInt_def Let_def s1')
    then show ?thesis using False by (simp add: Atoi_def)
  qed
qed

lemma Atoi_bad:
  assumes b: "\<not> base10 s"
  shows "Atoi s = (0, Some (NumError ''Atoi'' s ErrSyntax))
       \<or> \<not> length s < 19 \<and> Atoi s = (cutoff63 - 1, Some (NumError ''Atoi'' s ErrRange))
       \<or> \<not> length s < 19 \<and> Atoi s = (- cutoff63, Some (NumError ''Atoi'' s ErrRange))"
proof (cases "s = []")
  case True
  then show ?thesis by (simp add: Atoi_def ParseInt_def syntaxError_def)
next
  case ne: False
  define signed where "signed = (hd s = CHR ''-'' \<or> hd s = CHR ''+'')"
  define s1 where "s1 = (if signed then tl s else s)"
  have s1': "(if hd s = CHR ''+'' \<or> hd s = CHR ''-'' then tl s else s) = s1"
    by (auto simp: s1_def signed_def)
  from b ne have s1: "s1 = [] \<or> \<not> list_all isDigit s1"
    by (auto simp: base10_def s1_def signed_def Let_def split: if_splits)
  have sg: "s1 = [] \<Longrightarrow> signed" using ne by (auto simp: s1_def split: if_splits)
  show ?thesis
  proof (cases "length s < 19")
    case True
    have fast: "Atoi s =
        (if signed \<and> length s1 < 1 then (0, Some (syntaxError ''Atoi'' s))
         else case atoi_digits 0 s1 of
                None \<Rightarrow> (0, Some (syntaxError ''Atoi'' s))
              | Some n \<Rightarrow> (if hd s = CHR ''-'' then - n else n, None))"
      using True ne unfolding Atoi_def Let_def s1_def signed_def by simp
    show ?thesis
    proof (cases "s1 = []")
      case True
      then show ?thesis using sg by (simp add: fast syntaxError_def)
    next
      case False
      with s1 have "atoi_digits 0 s1 = None" by (simp add: atoi_digits_bad)
      then show ?thesis by (simp add: fast syntaxError_def)
    qed
  next
    case long: False
    have "ParseUint s1 = (0, Some (NumError ''ParseUint'' s1 ErrSyntax))
        \<or> ParseUint s1 = (maxVal64, Some (NumError ''ParseUint'' s1 ErrRange))"
    proof (cases "s1 = []")
      case True then show ?thesis by (simp add: ParseUint_def syntaxError_def)
    next
      case False
      with s1 show ?thesis using parseUint_loop_bad [of s1 0]
        by (auto simp: ParseUint_def syntaxError_def rangeError_def)
    qed
    then have "ParseInt s = (0, Some (NumError ''ParseInt'' s ErrSyntax))
       \<or> ParseInt s = (cutoff63 - 1, Some (NumError ''ParseInt'' s ErrRange))
       \<or> ParseInt s = (- cutoff63, Some (NumError ''ParseInt'' s ErrRange))"
      using ne by (auto simp: ParseInt_def Let_def s1' rangeError_def maxVal64_def cutoff63_def)
    then show ?thesis using long by (auto simp: Atoi_def)
  qed
qed


lemma digit_le9: "isDigit c \<Longrightarrow> (of_char c :: nat) - 48 \<le> 9"
  using isDigit_nat [of c] by linarith

lemma decimal_lt:
  "list_all isDigit s \<Longrightarrow> decimal a s < (a + 1) * 10 ^ length s"
proof (induction s arbitrary: a)
  case Nil then show ?case by simp
next
  case (Cons c s)
  then have d: "(of_char c :: nat) - 48 \<le> 9" and ds: "list_all isDigit s"
    by (simp_all add: digit_le9)
  have "decimal (10 * a + (of_char c - 48)) s < (10 * a + (of_char c - 48) + 1) * 10 ^ length s"
    by (rule Cons.IH [OF ds])
  also have "\<dots> \<le> (10 * a + 10) * 10 ^ length s"
    using d by (intro mult_right_mono) simp_all
  also have "\<dots> = (a + 1) * 10 ^ length (c # s)" by (simp add: algebra_simps)
  finally show ?case by simp
qed

lemma decimal_short:
  assumes "list_all isDigit s" and "length s < 19"
  shows "decimal 0 s < 2 ^ 63"
proof -
  have "decimal 0 s < 10 ^ length s" using decimal_lt [OF assms(1), of 0] by simp
  also have "(10::nat) ^ length s \<le> 10 ^ 18"
    using assms(2) by (intro power_increasing) simp_all
  also have "(10::nat) ^ 18 < 2 ^ 63" by simp
  finally show ?thesis .
qed

lemma parseUint_loop_overflow:
  "list_all isDigit s \<Longrightarrow> 2 ^ 64 \<le> decimal (unat n) s
     \<Longrightarrow> parseUint_loop n s = (maxVal64, Some ErrRange)"
proof (induction s arbitrary: n)
  case Nil
  have "unat n < 2 ^ 64" using unsigned_less [of n, where 'a = nat] by simp
  with Nil show ?case by simp
next
  case (Cons c s)
  then have d: "isDigit c" and ds: "list_all isDigit s" by simp_all
  let ?d = "byte c - 0x30"
  have c1: "\<not> 10 \<le> ?d" using digit_sub [OF d] by (simp add: word_le_nat_alt)
  have dg: "(0x30 \<le> byte c \<and> byte c \<le> 0x39) = True" using d by (simp add: isDigit_byte)
  show ?case
  proof (cases "cutoff10 \<le> n")
    case True
    then show ?thesis using c1 dg by (simp add: Let_def)
  next
    case False
    then have nlt: "unat n < 1844674407370955162"
      by (simp add: cutoff10_def word_le_nat_alt)
    then have m: "unat (n * 10) = unat n * 10"
      by (simp add: unat_mult_lem [THEN iffD1])
    show ?thesis
    proof (cases "10 * unat n + (of_char c - 48) < 2 ^ 64")
      case True
      then have u: "unat (n * 10 + ucast ?d) = 10 * unat n + (of_char c - 48)"
        using step64 [of n ?d] digit_sub(2) [OF d] by simp
      have c3: "\<not> n * 10 + ucast ?d < n * 10" using u m by (simp add: word_less_nat_alt)
      have c4: "\<not> maxVal64 < n * 10 + ucast ?d"
        by (simp add: maxVal64_def word_less_nat_alt)
           (use unsigned_less [of "n * 10 + ucast ?d", where 'a = nat] in simp)
      have "parseUint_loop (n * 10 + ucast ?d) s = (maxVal64, Some ErrRange)"
        by (rule Cons.IH [OF ds]) (use Cons.prems(2) u in simp)
      then show ?thesis using False c1 c3 c4 dg by (simp add: Let_def)
    next
      case ov: False
      have ud: "unat (ucast ?d :: 64 word) = of_char c - 48"
        using digit_sub(2) [OF d] by (simp add: unat_ucast_byte)
      have "unat (n * 10 + ucast ?d) = (unat (n * 10) + unat (ucast ?d :: 64 word)) mod 2 ^ 64"
        by (simp add: unat_word_ariths)
      also have "\<dots> = unat n * 10 + (of_char c - 48) - 2 ^ 64"
        using ov m ud nlt digit_le9 [OF d]
        by (simp add: mod_if)
      finally have "unat (n * 10 + ucast ?d) < unat (n * 10)"
        using m digit_le9 [OF d] ov by simp
      then have "n * 10 + ucast ?d < n * 10" by (simp add: word_less_nat_alt)
      then show ?thesis using False c1 dg by (simp add: Let_def)
    qed
  qed
qed

lemma Atoi_range:
  assumes b: "base10 s" and out: "base10_value s < - (2 ^ 63) \<or> 2 ^ 63 \<le> base10_value s"
  shows "Atoi s = (if 0 \<le> base10_value s then cutoff63 - 1 else - cutoff63,
                   Some (NumError ''Atoi'' s ErrRange))"
proof -
  define signed where "signed = (hd s = CHR ''-'' \<or> hd s = CHR ''+'')"
  define s1 where "s1 = (if signed then tl s else s)"
  from b have ne: "s \<noteq> []" by (auto simp: base10_def)
  from b ne have s1: "s1 \<noteq> []" "list_all isDigit s1"
    by (auto simp: base10_def s1_def signed_def Let_def split: if_splits)
  have v: "base10_value s = (if hd s = CHR ''-'' then - int (decimal 0 s1) else int (decimal 0 s1))"
    using ne by (auto simp: base10_value_def s1_def signed_def)
  have s1': "(if hd s = CHR ''+'' \<or> hd s = CHR ''-'' then tl s else s) = s1"
    by (auto simp: s1_def signed_def)
  have big: "2 ^ 63 \<le> decimal 0 s1" using out v by (auto split: if_splits)
  have neg: "hd s = CHR ''-'' \<Longrightarrow> 2 ^ 63 < decimal 0 s1" using out v by (auto split: if_splits)
  have pos: "0 \<le> base10_value s \<longleftrightarrow> hd s \<noteq> CHR ''-''"
    using v big by (auto split: if_splits)
  have long: "\<not> length s < 19"
  proof
    assume "length s < 19"
    then have "length s1 < 19" by (auto simp: s1_def)
    from decimal_short [OF s1(2) this] big show False by simp
  qed
  have pu: "\<exists>un err. ParseUint s1 = (un, err) \<and> cutoff63 \<le> un
              \<and> (hd s = CHR ''-'' \<longrightarrow> cutoff63 < un)
              \<and> (err = None \<or> err = Some (NumError ''ParseUint'' s1 ErrRange))"
  proof (cases "decimal 0 s1 < 2 ^ 64")
    case True
    then have "parseUint_loop 0 s1 = (of_nat (decimal 0 s1), None)"
      using parseUint_loop_ok [OF s1(2), of 0] by simp
    then have p: "ParseUint s1 = (of_nat (decimal 0 s1), None)"
      using s1 by (simp add: ParseUint_def)
    have un: "unat (of_nat (decimal 0 s1) :: 64 word) = decimal 0 s1"
      using True by (simp add: unat_of_nat)
    show ?thesis using p un big neg
      by (simp add: cutoff63_def word_le_nat_alt word_less_nat_alt)
  next
    case False
    then have "parseUint_loop 0 s1 = (maxVal64, Some ErrRange)"
      using parseUint_loop_overflow [OF s1(2), of 0] by simp
    then have "ParseUint s1 = (maxVal64, Some (NumError ''ParseUint'' s1 ErrRange))"
      using s1 by (simp add: ParseUint_def rangeError_def)
    then show ?thesis by (simp add: cutoff63_def maxVal64_def)
  qed
  then obtain un err where p: "ParseUint s1 = (un, err)" and c: "cutoff63 \<le> un"
    and cn: "hd s = CHR ''-'' \<longrightarrow> cutoff63 < un"
    and e: "err = None \<or> err = Some (NumError ''ParseUint'' s1 ErrRange)"
    by blast
  have "ParseInt s = (if hd s \<noteq> CHR ''-'' then cutoff63 - 1 else - cutoff63,
                      Some (NumError ''ParseInt'' s ErrRange))"
    using ne p c cn e by (auto simp: ParseInt_def Let_def s1' rangeError_def)
  then show ?thesis using long pos by (simp add: Atoi_def)
qed


lemma ucast_word_of_int: "(ucast (word_of_int i :: 64 word) :: 32 word) = word_of_int i"
  by (simp add: unsigned_of_int word_of_int_eq_iff)

lemma sint32_of_int: "- (2 ^ 31) \<le> i \<Longrightarrow> i < 2 ^ 31 \<Longrightarrow> sint (word_of_int i :: 32 word) = i"
  by (simp add: signed_of_int signed_take_bit_int_eq_self)

lemma getUITargetPort_numeric:
  assumes "map_lookup (SparkConf (app_Spec app)) sparkUIPortConfigurationKey = Some s"
    and "base10 s" and "- (2 ^ 31) \<le> base10_value s" and "base10_value s < 2 ^ 31"
  shows "\<exists>p. getUITargetPort app = (p, None) \<and> sint p = base10_value s"
proof -
  have "Atoi s = (word_of_int (base10_value s), None)"
    using assms by (intro Atoi_ok) auto
  then have "getUITargetPort app = (word_of_int (base10_value s), None)"
    using assms(1) by (simp add: getUITargetPort_def ucast_word_of_int)
  moreover have "sint (word_of_int (base10_value s) :: 32 word) = base10_value s"
    using assms by (simp add: sint32_of_int)
  ultimately show ?thesis by blast
qed

lemma getUITargetPort_nonnumeric:
  assumes "map_lookup (SparkConf (app_Spec app)) sparkUIPortConfigurationKey = Some s"
    and "\<not> base10 s"
  shows "\<exists>p e. getUITargetPort app = (p, Some e)
           \<and> (p = 0 \<or> p = - 1 \<and> 19 \<le> length s \<and> e = NumError ''Atoi'' s ErrRange)"
proof -
  have g: "getUITargetPort app = (ucast (fst (Atoi s)), snd (Atoi s))"
    using assms(1) by (simp add: getUITargetPort_def split_beta)
  from Atoi_bad [OF assms(2)] show ?thesis
    by (auto simp: g cutoff63_def)
qed

lemma getUITargetPort_absent:
  "map_lookup (SparkConf (app_Spec app)) sparkUIPortConfigurationKey = None
     \<Longrightarrow> getUITargetPort app = (4040, None)"
  by (simp add: getUITargetPort_def defaultSparkWebUIPort_def)

lemma getUITargetPort_wraps:
  assumes "map_lookup (SparkConf (app_Spec app)) sparkUIPortConfigurationKey = Some s"
    and "base10 s" and "- (2 ^ 63) \<le> base10_value s" and "base10_value s < 2 ^ 63"
  shows "getUITargetPort app = (word_of_int (base10_value s), None)"
proof -
  have "Atoi s = (word_of_int (base10_value s), None)"
    using assms by (intro Atoi_ok) auto
  then show ?thesis
    using assms(1) by (simp add: getUITargetPort_def ucast_word_of_int)
qed

lemma getUITargetPort_out_of_range:
  assumes "map_lookup (SparkConf (app_Spec app)) sparkUIPortConfigurationKey = Some s"
    and "base10 s" and "base10_value s < - (2 ^ 63) \<or> 2 ^ 63 \<le> base10_value s"
  shows "getUITargetPort app = (if 0 \<le> base10_value s then - 1 else 0,
                                 Some (NumError ''Atoi'' s ErrRange))"
  using assms(1) Atoi_range [OF assms(2,3)]
  by (simp add: getUITargetPort_def cutoff63_def)

subsection \<open>The target port\<close>

text \<open>
  C3, amended.  Let the value of \<^verbatim>\<open>spark.ui.port\<close> be a numeral: an optional sign and
  then decimal digits, one or more.  If the number lies in the range of \<^verbatim>\<open>int32\<close>,
  \<^verbatim>\<open>getUITargetPort\<close> returns exactly that number and no error.  If it lies in the range
  of \<^verbatim>\<open>int64\<close>, it returns the low 32 bits of the number and no error, which is the
  number itself only inside the range of \<^verbatim>\<open>int32\<close>.  If the number is \<open>2 ^ 63\<close> or more,
  it returns the port \<open>-1\<close> and a range error; if it is below \<open>- 2 ^ 63\<close>, the port 0
  and a range error.  For a value that is no numeral it returns an error; the port
  next to it is 0, or it is \<open>-1\<close> next to a range error, which happens only for values
  of 19 bytes or more.  When the key is absent it returns 4040 and no error.
\<close>

theorem getUITargetPort_resolves:
  "(map_lookup (SparkConf (app_Spec app)) sparkUIPortConfigurationKey = Some s
      \<and> base10 s \<and> - (2 ^ 31) \<le> base10_value s \<and> base10_value s < 2 ^ 31
     \<longrightarrow> (\<exists>p. getUITargetPort app = (p, None) \<and> sint p = base10_value s))
   \<and> (map_lookup (SparkConf (app_Spec app)) sparkUIPortConfigurationKey = Some s
      \<and> base10 s \<and> - (2 ^ 63) \<le> base10_value s \<and> base10_value s < 2 ^ 63
     \<longrightarrow> getUITargetPort app = (word_of_int (base10_value s), None))
   \<and> (map_lookup (SparkConf (app_Spec app)) sparkUIPortConfigurationKey = Some s
      \<and> base10 s \<and> 2 ^ 63 \<le> base10_value s
     \<longrightarrow> getUITargetPort app = (- 1, Some (NumError ''Atoi'' s ErrRange)))
   \<and> (map_lookup (SparkConf (app_Spec app)) sparkUIPortConfigurationKey = Some s
      \<and> base10 s \<and> base10_value s < - (2 ^ 63)
     \<longrightarrow> getUITargetPort app = (0, Some (NumError ''Atoi'' s ErrRange)))
   \<and> (map_lookup (SparkConf (app_Spec app)) sparkUIPortConfigurationKey = Some s \<and> \<not> base10 s
     \<longrightarrow> (\<exists>p e. getUITargetPort app = (p, Some e)
            \<and> (p = 0 \<or> p = - 1 \<and> 19 \<le> length s \<and> e = NumError ''Atoi'' s ErrRange)))
   \<and> (map_lookup (SparkConf (app_Spec app)) sparkUIPortConfigurationKey = None
     \<longrightarrow> getUITargetPort app = (4040, None))"
proof (intro conjI impI)
  assume "map_lookup (SparkConf (app_Spec app)) sparkUIPortConfigurationKey = Some s
      \<and> base10 s \<and> - (2 ^ 31) \<le> base10_value s \<and> base10_value s < 2 ^ 31"
  then show "\<exists>p. getUITargetPort app = (p, None) \<and> sint p = base10_value s"
    by (intro getUITargetPort_numeric) simp_all
next
  assume "map_lookup (SparkConf (app_Spec app)) sparkUIPortConfigurationKey = Some s
      \<and> base10 s \<and> - (2 ^ 63) \<le> base10_value s \<and> base10_value s < 2 ^ 63"
  then show "getUITargetPort app = (word_of_int (base10_value s), None)"
    by (intro getUITargetPort_wraps) simp_all
next
  assume a: "map_lookup (SparkConf (app_Spec app)) sparkUIPortConfigurationKey = Some s
      \<and> base10 s \<and> 2 ^ 63 \<le> base10_value s"
  then have "0 \<le> base10_value s" by simp
  then show "getUITargetPort app = (- 1, Some (NumError ''Atoi'' s ErrRange))"
    using a getUITargetPort_out_of_range [of app s] by simp
next
  assume a: "map_lookup (SparkConf (app_Spec app)) sparkUIPortConfigurationKey = Some s
      \<and> base10 s \<and> base10_value s < - (2 ^ 63)"
  then have "\<not> 0 \<le> base10_value s" by simp
  then show "getUITargetPort app = (0, Some (NumError ''Atoi'' s ErrRange))"
    using a getUITargetPort_out_of_range [of app s] by simp
next
  assume "map_lookup (SparkConf (app_Spec app)) sparkUIPortConfigurationKey = Some s \<and> \<not> base10 s"
  then show "\<exists>p e. getUITargetPort app = (p, Some e)
            \<and> (p = 0 \<or> p = - 1 \<and> 19 \<le> length s \<and> e = NumError ''Atoi'' s ErrRange)"
    by (intro getUITargetPort_nonnumeric) simp_all
next
  assume "map_lookup (SparkConf (app_Spec app)) sparkUIPortConfigurationKey = None"
  then show "getUITargetPort app = (4040, None)"
    by (rule getUITargetPort_absent)
qed

lemmas eval_atoi = getUITargetPort_def map_lookup_def sparkUIPortConfigurationKey_def Atoi_def
  ParseInt_def ParseUint_def byte_def lower_def cutoff10_def maxVal64_def cutoff63_def
  rangeError_def syntaxError_def app_with_def

lemmas eval_base10 = base10_def base10_value_def isDigit_def between_def byte_def

lemma lookup_port:
  "map_lookup (SparkConf (app_Spec (app_with (Some [''spark.ui.port'' \<mapsto> s]) None)))
     sparkUIPortConfigurationKey = Some s"
  by (simp add: app_with_def map_lookup_def sparkUIPortConfigurationKey_def)

text \<open>
  The theorem at \<^verbatim>\<open>8080\<close>, at \<^verbatim>\<open>4294971336\<close> (which is \<open>2 ^ 32 + 4040\<close>), at \<open>2 ^ 63\<close>, at
  \<open>- 2 ^ 63 - 1\<close>, at \<^verbatim>\<open>abc\<close> and at a workload without configuration.
\<close>

theorem getUITargetPort_resolves_witness:
  "(\<exists>p. getUITargetPort (app_with (Some [''spark.ui.port'' \<mapsto> ''8080'']) None) = (p, None)
        \<and> sint p = 8080)
   \<and> getUITargetPort (app_with (Some [''spark.ui.port'' \<mapsto> ''4294971336'']) None)
       = (4040, None)
   \<and> getUITargetPort (app_with (Some [''spark.ui.port'' \<mapsto> ''9223372036854775808'']) None)
       = (- 1, Some (NumError ''Atoi'' ''9223372036854775808'' ErrRange))
   \<and> getUITargetPort (app_with (Some [''spark.ui.port'' \<mapsto> ''-9223372036854775809'']) None)
       = (0, Some (NumError ''Atoi'' ''-9223372036854775809'' ErrRange))
   \<and> (\<exists>p e. getUITargetPort (app_with (Some [''spark.ui.port'' \<mapsto> ''abc'']) None) = (p, Some e)
        \<and> p = 0)
   \<and> getUITargetPort (app_with None None) = (4040, None)"
proof (intro conjI)
  have b1: "base10 ''8080''" and v1: "base10_value ''8080'' = 8080"
    by (simp_all add: eval_base10)
  from getUITargetPort_resolves
         [of "app_with (Some [''spark.ui.port'' \<mapsto> ''8080'']) None" "''8080''",
          THEN conjunct1]
  show "\<exists>p. getUITargetPort (app_with (Some [''spark.ui.port'' \<mapsto> ''8080'']) None) = (p, None)
        \<and> sint p = 8080"
    using b1 v1 lookup_port [of "''8080''"] by simp
next
  have b: "base10 ''4294971336''" and v: "base10_value ''4294971336'' = 4294971336"
    by (simp_all add: eval_base10)
  have w: "(word_of_int 4294971336 :: int32) = 4040" by simp
  from getUITargetPort_resolves
         [of "app_with (Some [''spark.ui.port'' \<mapsto> ''4294971336'']) None" "''4294971336''",
          THEN conjunct2, THEN conjunct1]
  show "getUITargetPort (app_with (Some [''spark.ui.port'' \<mapsto> ''4294971336'']) None)
       = (4040, None)"
    using b v w lookup_port [of "''4294971336''"] by simp
next
  have b: "base10 ''9223372036854775808''"
    and v: "base10_value ''9223372036854775808'' = 9223372036854775808"
    by (simp_all add: eval_base10)
  from getUITargetPort_resolves
         [of "app_with (Some [''spark.ui.port'' \<mapsto> ''9223372036854775808'']) None"
             "''9223372036854775808''", THEN conjunct2, THEN conjunct2, THEN conjunct1]
  show "getUITargetPort (app_with (Some [''spark.ui.port'' \<mapsto> ''9223372036854775808'']) None)
       = (- 1, Some (NumError ''Atoi'' ''9223372036854775808'' ErrRange))"
    using b v lookup_port [of "''9223372036854775808''"] by simp
next
  have b: "base10 ''-9223372036854775809''"
    and v: "base10_value ''-9223372036854775809'' = - 9223372036854775809"
    by (simp_all add: eval_base10)
  from getUITargetPort_resolves
         [of "app_with (Some [''spark.ui.port'' \<mapsto> ''-9223372036854775809'']) None"
             "''-9223372036854775809''",
          THEN conjunct2, THEN conjunct2, THEN conjunct2, THEN conjunct1]
  show "getUITargetPort (app_with (Some [''spark.ui.port'' \<mapsto> ''-9223372036854775809'']) None)
       = (0, Some (NumError ''Atoi'' ''-9223372036854775809'' ErrRange))"
    using b v lookup_port [of "''-9223372036854775809''"] by simp
next
  have b: "\<not> base10 ''abc''" by (simp add: eval_base10)
  from getUITargetPort_resolves
         [of "app_with (Some [''spark.ui.port'' \<mapsto> ''abc'']) None" "''abc''",
          THEN conjunct2, THEN conjunct2, THEN conjunct2, THEN conjunct2, THEN conjunct1]
  show "\<exists>p e. getUITargetPort (app_with (Some [''spark.ui.port'' \<mapsto> ''abc'']) None) = (p, Some e)
        \<and> p = 0"
    using b lookup_port [of "''abc''"] by auto
next
  have l: "map_lookup (SparkConf (app_Spec (app_with None None))) sparkUIPortConfigurationKey = None"
    by (simp add: app_with_def map_lookup_def)
  from getUITargetPort_resolves
         [of "app_with None None" "''x''",
          THEN conjunct2, THEN conjunct2, THEN conjunct2, THEN conjunct2, THEN conjunct2]
  show "getUITargetPort (app_with None None) = (4040, None)"
    using l by simp
qed

text \<open>
  C3 as it is stated fails twice.  The valid base-10 integer 2147483648 is returned
  as the \<^verbatim>\<open>int32\<close> of value \<open>-2147483648\<close>, with no error: \<^verbatim>\<open>int32(port)\<close> truncates.  The
  non-numeric value \<^verbatim>\<open>99999999999999999999x\<close> yields the port \<open>-1\<close>, not 0: \<^verbatim>\<open>ParseUint\<close>
  reports the overflow before it reaches the \<^verbatim>\<open>x\<close>, \<^verbatim>\<open>Atoi\<close> returns the largest \<^verbatim>\<open>int\<close>
  with the range error, and its low 32 bits are all ones.
\<close>

theorem getUITargetPort_counterexample:
  "base10 ''2147483648'' \<and> base10_value ''2147483648'' = 2147483648
   \<and> getUITargetPort (app_with (Some [''spark.ui.port'' \<mapsto> ''2147483648'']) None)
       = (0x80000000, None)
   \<and> sint (0x80000000 :: int32) = - 2147483648
   \<and> \<not> base10 ''99999999999999999999x''
   \<and> getUITargetPort (app_with (Some [''spark.ui.port'' \<mapsto> ''99999999999999999999x'']) None)
       = (- 1, Some (NumError ''Atoi'' ''99999999999999999999x'' ErrRange))"
  by (simp add: eval_atoi eval_base10)

subsection \<open>The service port\<close>

text \<open>
  C5.  When the UI options are present, \<^verbatim>\<open>getUIServicePort\<close> returns their service port
  if it is set and 4040 otherwise, with no error, whatever the configuration map
  \<open>conf\<close> holds.
\<close>

theorem getUIServicePort_options:
  "SparkUIOptions spec = Some opts \<Longrightarrow>
     getUIServicePort (app\<lparr>app_Spec := spec\<lparr>SparkConf := conf\<rparr>\<rparr>)
       = (case ServicePort opts of Some port \<Rightarrow> (port, None) | None \<Rightarrow> (4040, None))"
  by (simp add: getUIServicePort_def defaultSparkWebUIPort_def split: option.splits)

text \<open>
  The theorem at a set port next to a non-numeric \<^verbatim>\<open>spark.ui.port\<close>, and at an unset
  port next to \<^verbatim>\<open>spark.ui.port\<close> 8080.
\<close>

theorem getUIServicePort_options_witness:
  "getUIServicePort (app_with (Some [''spark.ui.port'' \<mapsto> ''abc''])
                       (Some \<lparr>ServicePort = Some 9090, ServicePortName = None\<rparr>)) = (9090, None)
   \<and> getUIServicePort (app_with (Some [''spark.ui.port'' \<mapsto> ''8080''])
                       (Some \<lparr>ServicePort = None, ServicePortName = None\<rparr>)) = (4040, None)"
  using getUIServicePort_options
          [where spec = "\<lparr>SparkConf = None, SparkUIOptions = Some \<lparr>ServicePort = Some 9090, ServicePortName = None\<rparr>\<rparr>"
             and opts = "\<lparr>ServicePort = Some 9090, ServicePortName = None\<rparr>"
             and app = "app_with None None" and conf = "Some [''spark.ui.port'' \<mapsto> ''abc'']"]
        getUIServicePort_options
          [where spec = "\<lparr>SparkConf = None, SparkUIOptions = Some \<lparr>ServicePort = None, ServicePortName = None\<rparr>\<rparr>"
             and opts = "\<lparr>ServicePort = None, ServicePortName = None\<rparr>"
             and app = "app_with None None" and conf = "Some [''spark.ui.port'' \<mapsto> ''8080'']"]
  by (simp add: app_with_def)

text \<open>
  C6.  When the UI options are absent, \<^verbatim>\<open>getUIServicePort\<close> returns the port and the
  error of \<^verbatim>\<open>getUITargetPort\<close> on the same workload.
\<close>

theorem getUIServicePort_delegates:
  "SparkUIOptions (app_Spec app) = None \<Longrightarrow> getUIServicePort app = getUITargetPort app"
  by (simp add: getUIServicePort_def)

text \<open>The theorem at a workload without UI options and \<^verbatim>\<open>spark.ui.port\<close> 8080.\<close>

theorem getUIServicePort_delegates_witness:
  "getUIServicePort (app_with (Some [''spark.ui.port'' \<mapsto> ''8080'']) None)
     = getUITargetPort (app_with (Some [''spark.ui.port'' \<mapsto> ''8080'']) None)
   \<and> getUITargetPort (app_with (Some [''spark.ui.port'' \<mapsto> ''8080'']) None) = (8080, None)"
  using getUIServicePort_delegates [of "app_with (Some [''spark.ui.port'' \<mapsto> ''8080'']) None"]
  by (simp add: eval_atoi)
section \<open>The service\<close>

lemma fmt_d_0: "fmt_d 0 = ''0''"
  by (simp add: fmt_d_def dec.simps digit_char_def)

lemma fmt_d_m1: "fmt_d (- 1) = ''-1''"
  by (simp add: fmt_d_def dec.simps digit_char_def)

text \<open>
  C2.  With a value of \<^verbatim>\<open>spark.ui.port\<close> that is not a decimal numeral,
  \<^verbatim>\<open>createSparkUIService\<close> returns an error and sends no request to the store.  The
  message of the error is built from the port that came back with the parse error,
  which is 0 or \<open>-1\<close>, and not from the value that failed to parse: for the value
  \<^verbatim>\<open>abc\<close> the message is \<^verbatim>\<open>invalid Spark UI servicePort: 0\<close>, in which \<^verbatim>\<open>abc\<close> does not
  occur.
\<close>

theorem createSparkUIService_invalid_port:
  "(map_lookup (SparkConf (app_Spec app)) sparkUIPortConfigurationKey = Some s \<and> \<not> base10 s
      \<longrightarrow> (\<exists>msg. createSparkUIService h app kubeClient log = (Inl (Errorf msg), log)
             \<and> msg \<in> {''invalid Spark UI servicePort: 0'', ''invalid Spark UI servicePort: -1'',
                       ''invalid Spark UI targetPort: 0'', ''invalid Spark UI targetPort: -1''}))
   \<and> createSparkUIService (sample_helpers None None)
        (app_with (Some [''spark.ui.port'' \<mapsto> ''abc'']) None) echoStore []
       = (Inl (Errorf ''invalid Spark UI servicePort: 0''), [])
   \<and> \<not> contains ''invalid Spark UI servicePort: 0'' ''abc''"
proof (intro conjI impI)
  assume a: "map_lookup (SparkConf (app_Spec app)) sparkUIPortConfigurationKey = Some s \<and> \<not> base10 s"
  with getUITargetPort_nonnumeric [of app s]
  obtain p e where t: "getUITargetPort app = (p, Some e)" and p: "p = 0 \<or> p = - 1"
    by auto
  show "\<exists>msg. createSparkUIService h app kubeClient log = (Inl (Errorf msg), log)
             \<and> msg \<in> {''invalid Spark UI servicePort: 0'', ''invalid Spark UI servicePort: -1'',
                       ''invalid Spark UI targetPort: 0'', ''invalid Spark UI targetPort: -1''}"
  proof (cases "snd (getUIServicePort app)")
    case None
    then have "getUIServicePort app = (fst (getUIServicePort app), None)"
      by (metis prod.collapse)
    then show ?thesis using t p
      by (auto simp: createSparkUIService_def Let_def fmt_d_0 fmt_d_m1 split: prod.splits)
  next
    case (Some e')
    then have "SparkUIOptions (app_Spec app) = None"
      by (auto simp: getUIServicePort_def split: option.splits)
    then have "getUIServicePort app = (p, Some e)"
      using t by (simp add: getUIServicePort_def)
    then show ?thesis using p
      by (auto simp: createSparkUIService_def Let_def fmt_d_0 fmt_d_m1)
  qed
next
  show "createSparkUIService (sample_helpers None None)
        (app_with (Some [''spark.ui.port'' \<mapsto> ''abc'']) None) echoStore []
       = (Inl (Errorf ''invalid Spark UI servicePort: 0''), [])"
    by (simp add: createSparkUIService_def getUIServicePort_def eval_atoi fmt_d_0)
next
  show "\<not> contains ''invalid Spark UI servicePort: 0'' ''abc''"
    by (simp add: contains_def hasPrefix_def)
qed

text \<open>
  The theorem at the value \<^verbatim>\<open>4O4O\<close> (letters O) with a service port set in the UI
  options: the target port fails to resolve.
\<close>

theorem createSparkUIService_invalid_port_witness:
  "\<exists>msg. createSparkUIService (sample_helpers None None)
        (app_with (Some [''spark.ui.port'' \<mapsto> ''4O4O''])
                  (Some \<lparr>ServicePort = Some 80, ServicePortName = None\<rparr>)) echoStore []
       = (Inl (Errorf msg), [])
     \<and> msg \<in> {''invalid Spark UI servicePort: 0'', ''invalid Spark UI servicePort: -1'',
               ''invalid Spark UI targetPort: 0'', ''invalid Spark UI targetPort: -1''}"
proof -
  have "map_lookup (SparkConf (app_Spec (app_with (Some [''spark.ui.port'' \<mapsto> ''4O4O''])
                  (Some \<lparr>ServicePort = Some 80, ServicePortName = None\<rparr>))))
          sparkUIPortConfigurationKey = Some ''4O4O'' \<and> \<not> base10 ''4O4O''"
    by (simp add: app_with_def map_lookup_def sparkUIPortConfigurationKey_def eval_base10)
  then show ?thesis
    using createSparkUIService_invalid_port
            [of "app_with (Some [''spark.ui.port'' \<mapsto> ''4O4O''])
                  (Some \<lparr>ServicePort = Some 80, ServicePortName = None\<rparr>)" "''4O4O''"
                "sample_helpers None None" echoStore "[]"]
    by blast
qed



section \<open>The ingress and the descriptors\<close>

lemma createSparkUIIngress_log:
  "snd (createSparkUIIngress h app service url kubeClient log)
     = log @ [CreateIngress (app_Namespace app) (uiIngress h app service url)]"
proof -
  have "Namespace (ing_ObjectMeta (uiIngress h app service url)) = app_Namespace app"
    unfolding uiIngress_def Let_def by simp
  then show ?thesis
    unfolding createSparkUIIngress_def Let_def by (simp split: sum.split)
qed

lemma uiIngress_paths:
  "ingressPaths (uiIngress h app service url)
     = [if Path url \<noteq> [] \<and> Path url \<noteq> ''/'' then Path url @ ''(/|$)(.*)'' else Path url]"
  unfolding uiIngress_def Let_def ingressPaths_def by simp

lemma uiIngress_annotations:
  "Annotations (ing_ObjectMeta (uiIngress h app service url))
     = (if Path url \<noteq> [] \<and> Path url \<noteq> ''/''
        then Some ((case (if map_empty (getIngressResourceAnnotations h app) then None
                          else getIngressResourceAnnotations h app) of
                      None \<Rightarrow> Map.empty | Some m \<Rightarrow> m)
                   (rewriteTargetKey \<mapsto> ''/$2''))
        else if map_empty (getIngressResourceAnnotations h app) then None
        else getIngressResourceAnnotations h app)"
  unfolding uiIngress_def Let_def by simp


lemma uiIngress_meta:
  "Name (ing_ObjectMeta (uiIngress h app service url)) = getDefaultUIIngressName h app"
  "Namespace (ing_ObjectMeta (uiIngress h app service url)) = app_Namespace app"
  unfolding uiIngress_def Let_def by simp_all

lemma uiService_annotations:
  "Annotations (svc_ObjectMeta (uiService h app portName port tPort))
     = (if map_empty (getServiceAnnotations h app) then None else getServiceAnnotations h app)"
  unfolding uiService_def Let_def by simp

lemma createSparkUIService_resolved:
  assumes "getUIServicePort app = (port, None)" and "getUITargetPort app = (tPort, None)"
  shows "createSparkUIService h app kubeClient log =
     (let service = uiService h app (getUIServicePortName app) port tPort;
          log' = log @ [CreateService (app_Namespace app) service]
      in case ServicesCreate kubeClient (app_Namespace app) service of
           Inl err \<Rightarrow> (Inl err, log')
         | Inr service \<Rightarrow>
             (case Ports (svc_Spec service) of
                [] \<Rightarrow> (Inl PanicIndexOutOfRange, log')
              | port0 # _ \<Rightarrow>
                  (Inr \<lparr>serviceName = Name (svc_ObjectMeta service),
                        serviceType = ss_Type (svc_Spec service),
                        servicePort = sp_Port port0,
                        servicePortName = sp_Name port0,
                        targetPort = sp_TargetPort port0,
                        serviceIP = ClusterIP (svc_Spec service),
                        serviceAnnotations = getServiceAnnotations h app\<rparr>,
                   log')))"
  unfolding createSparkUIService_def Let_def using assms by simp

lemma createSparkUIService_unresolved:
  assumes "snd (getUIServicePort app) \<noteq> None \<or> snd (getUITargetPort app) \<noteq> None"
  shows "\<exists>e. createSparkUIService h app kubeClient log = (Inl e, log)"
  unfolding createSparkUIService_def Let_def using assms
  by (auto simp: split_beta)

text \<open>
  C1.  \<^verbatim>\<open>createSparkUIIngress\<close> submits one ingress.  When the path of the URL is
  neither empty nor \<^verbatim>\<open>/\<close>, the path of the ingress is the path of the URL followed by
  \<^verbatim>\<open>(/|$)(.*)\<close> and the annotation \<^verbatim>\<open>nginx.ingress.kubernetes.io/rewrite-target\<close> has the
  value \<^verbatim>\<open>/$2\<close>.  When the path is empty or \<^verbatim>\<open>/\<close>, the path is submitted as it is and
  the annotations are those of the workload, nothing added (nil when there are none).
\<close>

theorem createSparkUIIngress_path_rewrite:
  "\<exists>ingress.
     snd (createSparkUIIngress h app service url kubeClient log)
       = log @ [CreateIngress (app_Namespace app) ingress]
     \<and> (Path url \<noteq> [] \<and> Path url \<noteq> ''/'' \<longrightarrow>
          ingressPaths ingress = [Path url @ ''(/|$)(.*)'']
          \<and> map_lookup (Annotations (ing_ObjectMeta ingress))
                ''nginx.ingress.kubernetes.io/rewrite-target'' = Some ''/$2'')
     \<and> (Path url = [] \<or> Path url = ''/'' \<longrightarrow>
          ingressPaths ingress = [Path url]
          \<and> Annotations (ing_ObjectMeta ingress)
              = (if map_empty (getIngressResourceAnnotations h app) then None
                 else getIngressResourceAnnotations h app))"
proof (intro exI conjI impI)
  show "snd (createSparkUIIngress h app service url kubeClient log)
          = log @ [CreateIngress (app_Namespace app) (uiIngress h app service url)]"
    by (rule createSparkUIIngress_log)
next
  assume "Path url \<noteq> [] \<and> Path url \<noteq> ''/''"
  then show "ingressPaths (uiIngress h app service url) = [Path url @ ''(/|$)(.*)'']"
    by (simp add: uiIngress_paths)
next
  assume "Path url \<noteq> [] \<and> Path url \<noteq> ''/''"
  then show "map_lookup (Annotations (ing_ObjectMeta (uiIngress h app service url)))
                ''nginx.ingress.kubernetes.io/rewrite-target'' = Some ''/$2''"
    by (simp add: uiIngress_annotations map_lookup_def rewriteTargetKey_def)
next
  assume "Path url = [] \<or> Path url = ''/''"
  then show "ingressPaths (uiIngress h app service url) = [Path url]"
    by (auto simp: uiIngress_paths)
next
  assume "Path url = [] \<or> Path url = ''/''"
  then show "Annotations (ing_ObjectMeta (uiIngress h app service url))
              = (if map_empty (getIngressResourceAnnotations h app) then None
                 else getIngressResourceAnnotations h app)"
    by (auto simp: uiIngress_annotations)
qed

text \<open>The theorem at the paths \<^verbatim>\<open>/ui\<close>, \<^verbatim>\<open>/\<close> and the empty path.\<close>

theorem createSparkUIIngress_path_rewrite_witness:
  "snd (createSparkUIIngress (sample_helpers None None) (app_with None None) sample_service
          (url_with_path ''/ui'') echoStore [])
     = [CreateIngress ''ns1''
          (uiIngress (sample_helpers None None) (app_with None None) sample_service
             (url_with_path ''/ui''))]
   \<and> ingressPaths (uiIngress (sample_helpers None None) (app_with None None) sample_service
                      (url_with_path ''/ui'')) = [''/ui(/|$)(.*)'']
   \<and> Annotations (ing_ObjectMeta (uiIngress (sample_helpers None None) (app_with None None)
                      sample_service (url_with_path ''/ui'')))
       = Some [''nginx.ingress.kubernetes.io/rewrite-target'' \<mapsto> ''/$2'']
   \<and> ingressPaths (uiIngress (sample_helpers None None) (app_with None None) sample_service
                      (url_with_path ''/'')) = [''/'']
   \<and> Annotations (ing_ObjectMeta (uiIngress (sample_helpers None None) (app_with None None)
                      sample_service (url_with_path ''/''))) = None
   \<and> ingressPaths (uiIngress (sample_helpers None None) (app_with None None) sample_service
                      (url_with_path [])) = [[]]"
proof -
  have p: "Path (url_with_path ''/ui'') \<noteq> [] \<and> Path (url_with_path ''/ui'') \<noteq> ''/''"
    "Path (url_with_path ''/'') = [] \<or> Path (url_with_path ''/'') = ''/''"
    "Path (url_with_path []) = [] \<or> Path (url_with_path []) = ''/''"
    by (simp_all add: url_with_path_def)
  have n: "app_Namespace (app_with None None) = ''ns1''" by (simp add: app_with_def)
  have a: "Annotations (ing_ObjectMeta (uiIngress (sample_helpers None None) (app_with None None)
                      sample_service (url_with_path ''/ui'')))
       = Some [''nginx.ingress.kubernetes.io/rewrite-target'' \<mapsto> ''/$2'']"
    unfolding uiIngress_def Let_def
    by (simp add: sample_helpers_def map_empty_def url_with_path_def rewriteTargetKey_def)
  have e: "map_empty (getIngressResourceAnnotations (sample_helpers None None) (app_with None None))"
    by (simp add: sample_helpers_def map_empty_def)
  from createSparkUIIngress_path_rewrite
         [of "sample_helpers None None" "app_with None None" sample_service
             "url_with_path ''/ui''" echoStore "[]"]
       createSparkUIIngress_path_rewrite
         [of "sample_helpers None None" "app_with None None" sample_service
             "url_with_path ''/''" echoStore "[]"]
       createSparkUIIngress_path_rewrite
         [of "sample_helpers None None" "app_with None None" sample_service
             "url_with_path []" echoStore "[]"]
  show ?thesis
    using p n a e
    by (simp add: createSparkUIIngress_log) (simp add: url_with_path_def)
qed


text \<open>
  C10.  When the annotations of the workload for the ingress already hold the key
  \<^verbatim>\<open>nginx.ingress.kubernetes.io/rewrite-target\<close> and the path of the URL is neither empty
  nor \<^verbatim>\<open>/\<close>, the submitted ingress carries the annotations of the workload with the
  value of that key replaced by \<^verbatim>\<open>/$2\<close>.
\<close>

theorem createSparkUIIngress_rewrite_overwrites:
  assumes "getIngressResourceAnnotations h app = Some m"
    and "m ''nginx.ingress.kubernetes.io/rewrite-target'' = Some v"
    and "Path url \<noteq> []" and "Path url \<noteq> ''/''"
  shows "\<exists>ingress.
     snd (createSparkUIIngress h app service url kubeClient log)
       = log @ [CreateIngress (app_Namespace app) ingress]
     \<and> Annotations (ing_ObjectMeta ingress)
         = Some (m(''nginx.ingress.kubernetes.io/rewrite-target'' \<mapsto> ''/$2''))
     \<and> map_lookup (Annotations (ing_ObjectMeta ingress))
          ''nginx.ingress.kubernetes.io/rewrite-target'' = Some ''/$2''"
proof -
  have "\<not> map_empty (getIngressResourceAnnotations h app)"
    using assms(1,2) by (auto simp: map_empty_def)
  then have "Annotations (ing_ObjectMeta (uiIngress h app service url))
               = Some (m(''nginx.ingress.kubernetes.io/rewrite-target'' \<mapsto> ''/$2''))"
    using assms by (simp add: uiIngress_annotations rewriteTargetKey_def)
  then show ?thesis
    using createSparkUIIngress_log [of h app service url kubeClient log]
    by (simp add: map_lookup_def)
qed

text \<open>
  The theorem at annotations that set the key to \<^verbatim>\<open>/$1\<close> next to an ingress class, and
  the path \<^verbatim>\<open>/ui\<close>.
\<close>

theorem createSparkUIIngress_rewrite_overwrites_witness:
  "\<exists>ingress.
     snd (createSparkUIIngress
            (sample_helpers None (Some [''nginx.ingress.kubernetes.io/rewrite-target'' \<mapsto> ''/$1'',
                                        ''kubernetes.io/ingress.class'' \<mapsto> ''nginx'']))
            (app_with None None) sample_service (url_with_path ''/ui'') echoStore [])
       = [CreateIngress ''ns1'' ingress]
     \<and> Annotations (ing_ObjectMeta ingress)
         = Some [''nginx.ingress.kubernetes.io/rewrite-target'' \<mapsto> ''/$2'',
                 ''kubernetes.io/ingress.class'' \<mapsto> ''nginx'']"
proof -
  let ?m = "[''nginx.ingress.kubernetes.io/rewrite-target'' \<mapsto> ''/$1'',
             ''kubernetes.io/ingress.class'' \<mapsto> ''nginx'']"
  have 1: "getIngressResourceAnnotations (sample_helpers None (Some ?m)) (app_with None None) = Some ?m"
    by (simp add: sample_helpers_def)
  have 2: "?m ''nginx.ingress.kubernetes.io/rewrite-target'' = Some ''/$1''" by simp
  have 3: "Path (url_with_path ''/ui'') \<noteq> []" "Path (url_with_path ''/ui'') \<noteq> ''/''"
    by (simp_all add: url_with_path_def)
  have 4: "app_Namespace (app_with None None) = ''ns1''" by (simp add: app_with_def)
  have 5: "?m(''nginx.ingress.kubernetes.io/rewrite-target'' \<mapsto> ''/$2'')
             = [''nginx.ingress.kubernetes.io/rewrite-target'' \<mapsto> ''/$2'',
                ''kubernetes.io/ingress.class'' \<mapsto> ''nginx'']"
    by (rule ext) simp
  from createSparkUIIngress_rewrite_overwrites
         [OF 1 2 3, of sample_service echoStore "[]"]
  show ?thesis unfolding 4 5 append_Nil by blast
qed

text \<open>
  C9.  When the service annotations of the workload are empty, the service that
  \<^verbatim>\<open>createSparkUIService\<close> submits has no annotations field (nil, not an empty map).
  When the ingress annotations of the workload are empty and the path of the URL is
  empty or \<^verbatim>\<open>/\<close>, the same holds of the ingress that \<^verbatim>\<open>createSparkUIIngress\<close> submits.
\<close>

theorem empty_annotations_omitted:
  "(map_empty (getServiceAnnotations h app)
      \<and> snd (getUIServicePort app) = None \<and> snd (getUITargetPort app) = None
     \<longrightarrow> (\<exists>service.
            snd (createSparkUIService h app kubeClient log)
              = log @ [CreateService (app_Namespace app) service]
            \<and> Annotations (svc_ObjectMeta service) = None))
   \<and> (map_empty (getIngressResourceAnnotations h app) \<and> (Path url = [] \<or> Path url = ''/'')
     \<longrightarrow> (\<exists>ingress.
            snd (createSparkUIIngress h app service url kubeClient log)
              = log @ [CreateIngress (app_Namespace app) ingress]
            \<and> Annotations (ing_ObjectMeta ingress) = None))"
proof (intro conjI impI)
  assume a: "map_empty (getServiceAnnotations h app)
      \<and> snd (getUIServicePort app) = None \<and> snd (getUITargetPort app) = None"
  obtain port tPort where p: "getUIServicePort app = (port, None)"
      "getUITargetPort app = (tPort, None)"
    using a by (metis prod.collapse)
  have "snd (createSparkUIService h app kubeClient log)
          = log @ [CreateService (app_Namespace app)
                     (uiService h app (getUIServicePortName app) port tPort)]"
    by (simp add: createSparkUIService_resolved [OF p] Let_def split: sum.split list.split)
  moreover have "Annotations (svc_ObjectMeta (uiService h app (getUIServicePortName app) port tPort))
                   = None"
    using a by (simp add: uiService_annotations)
  ultimately show "\<exists>service.
            snd (createSparkUIService h app kubeClient log)
              = log @ [CreateService (app_Namespace app) service]
            \<and> Annotations (svc_ObjectMeta service) = None"
    by blast
next
  assume a: "map_empty (getIngressResourceAnnotations h app) \<and> (Path url = [] \<or> Path url = ''/'')"
  then have "Annotations (ing_ObjectMeta (uiIngress h app service url)) = None"
    by (auto simp: uiIngress_annotations)
  then show "\<exists>ingress.
            snd (createSparkUIIngress h app service url kubeClient log)
              = log @ [CreateIngress (app_Namespace app) ingress]
            \<and> Annotations (ing_ObjectMeta ingress) = None"
    using createSparkUIIngress_log [of h app service url kubeClient log] by blast
qed

lemma getUIServicePort_default: "getUIServicePort (app_with None None) = (4040, None)"
  by (simp add: getUIServicePort_def getUITargetPort_def app_with_def map_lookup_def
        defaultSparkWebUIPort_def)

lemma getUITargetPort_default: "getUITargetPort (app_with None None) = (4040, None)"
  by (simp add: getUITargetPort_def app_with_def map_lookup_def defaultSparkWebUIPort_def)

text \<open>The theorem at annotation maps that are empty but not nil.\<close>

theorem empty_annotations_omitted_witness:
  "(\<exists>service.
      snd (createSparkUIService (sample_helpers (Some Map.empty) (Some Map.empty))
             (app_with None None) echoStore [])
        = [CreateService ''ns1'' service]
      \<and> Annotations (svc_ObjectMeta service) = None)
   \<and> (\<exists>ingress.
      snd (createSparkUIIngress (sample_helpers (Some Map.empty) (Some Map.empty))
             (app_with None None) sample_service (url_with_path ''/'') echoStore [])
        = [CreateIngress ''ns1'' ingress]
      \<and> Annotations (ing_ObjectMeta ingress) = None)"
proof -
  have 1: "map_empty (getServiceAnnotations (sample_helpers (Some Map.empty) (Some Map.empty))
                        (app_with None None))
      \<and> snd (getUIServicePort (app_with None None)) = None
      \<and> snd (getUITargetPort (app_with None None)) = None"
    by (simp add: sample_helpers_def map_empty_def getUIServicePort_default
          getUITargetPort_default)
  have 2: "map_empty (getIngressResourceAnnotations (sample_helpers (Some Map.empty) (Some Map.empty))
                        (app_with None None))
      \<and> (Path (url_with_path ''/'') = [] \<or> Path (url_with_path ''/'') = ''/'')"
    by (simp add: sample_helpers_def map_empty_def url_with_path_def)
  have 4: "app_Namespace (app_with None None) = ''ns1''" by (simp add: app_with_def)
  from empty_annotations_omitted
         [of "sample_helpers (Some Map.empty) (Some Map.empty)" "app_with None None"
             echoStore "[]" "url_with_path ''/''" sample_service]
  show ?thesis using 1 2 by (simp add: 4)
qed


text \<open>
  C4, amended.  On success the descriptor of the service takes its name, type, port,
  port name, target port and cluster IP from the object the store returned, and its
  annotations from the service annotations of the workload.  The descriptor of the
  ingress takes its name, annotations and TLS list from the object that was submitted:
  the object the store returned is discarded.
\<close>

theorem descriptor_sources:
  "(createSparkUIService h app kubeClient log = (Inr d, log') \<longrightarrow>
      (\<exists>request response port0 ports.
         log' = log @ [CreateService (app_Namespace app) request]
         \<and> ServicesCreate kubeClient (app_Namespace app) request = Inr response
         \<and> Ports (svc_Spec response) = port0 # ports
         \<and> serviceName d = Name (svc_ObjectMeta response)
         \<and> serviceType d = ss_Type (svc_Spec response)
         \<and> servicePort d = sp_Port port0
         \<and> servicePortName d = sp_Name port0
         \<and> targetPort d = sp_TargetPort port0
         \<and> serviceIP d = ClusterIP (svc_Spec response)
         \<and> serviceAnnotations d = getServiceAnnotations h app))
   \<and> (createSparkUIIngress h app service url kubeClient log = (Inr i, log') \<longrightarrow>
      (\<exists>request.
         log' = log @ [CreateIngress (app_Namespace app) request]
         \<and> ingressName i = Name (ing_ObjectMeta request)
         \<and> annotations i = Annotations (ing_ObjectMeta request)
         \<and> ingressTLS i = TLS (ing_Spec request)
         \<and> ingressURL i = url))"
proof (intro conjI impI)
  assume a: "createSparkUIService h app kubeClient log = (Inr d, log')"
  have "\<not> (snd (getUIServicePort app) \<noteq> None \<or> snd (getUITargetPort app) \<noteq> None)"
  proof
    assume "snd (getUIServicePort app) \<noteq> None \<or> snd (getUITargetPort app) \<noteq> None"
    from createSparkUIService_unresolved [OF this, of h kubeClient log] a
    show False by auto
  qed
  then have "snd (getUIServicePort app) = None \<and> snd (getUITargetPort app) = None"
    by simp
  then obtain port tPort where p: "getUIServicePort app = (port, None)"
      "getUITargetPort app = (tPort, None)"
    by (metis prod.collapse)
  let ?request = "uiService h app (getUIServicePortName app) port tPort"
  from a obtain response port0 ports where
      r: "ServicesCreate kubeClient (app_Namespace app) ?request = Inr response"
      and ps: "Ports (svc_Spec response) = port0 # ports"
      and d: "d = \<lparr>serviceName = Name (svc_ObjectMeta response),
                    serviceType = ss_Type (svc_Spec response),
                    servicePort = sp_Port port0,
                    servicePortName = sp_Name port0,
                    targetPort = sp_TargetPort port0,
                    serviceIP = ClusterIP (svc_Spec response),
                    serviceAnnotations = getServiceAnnotations h app\<rparr>"
      and l: "log' = log @ [CreateService (app_Namespace app) ?request]"
    unfolding createSparkUIService_resolved [OF p] Let_def
    by (auto split: sum.splits list.splits)
  show "\<exists>request response port0 ports.
         log' = log @ [CreateService (app_Namespace app) request]
         \<and> ServicesCreate kubeClient (app_Namespace app) request = Inr response
         \<and> Ports (svc_Spec response) = port0 # ports
         \<and> serviceName d = Name (svc_ObjectMeta response)
         \<and> serviceType d = ss_Type (svc_Spec response)
         \<and> servicePort d = sp_Port port0
         \<and> servicePortName d = sp_Name port0
         \<and> targetPort d = sp_TargetPort port0
         \<and> serviceIP d = ClusterIP (svc_Spec response)
         \<and> serviceAnnotations d = getServiceAnnotations h app"
    using r ps l by (intro exI [of _ ?request] exI [of _ response] exI [of _ port0] exI [of _ ports])
      (simp add: d)
next
  assume a: "createSparkUIIngress h app service url kubeClient log = (Inr i, log')"
  let ?request = "uiIngress h app service url"
  have l: "log' = log @ [CreateIngress (app_Namespace app) ?request]"
    using createSparkUIIngress_log [of h app service url kubeClient log] a by simp
  have "i = \<lparr>ingressName = Name (ing_ObjectMeta ?request), ingressURL = url,
              annotations = Annotations (ing_ObjectMeta ?request),
              ingressTLS = TLS (ing_Spec ?request)\<rparr>"
    using a unfolding createSparkUIIngress_def Let_def by (auto split: sum.splits)
  then show "\<exists>request.
         log' = log @ [CreateIngress (app_Namespace app) request]
         \<and> ingressName i = Name (ing_ObjectMeta request)
         \<and> annotations i = Annotations (ing_ObjectMeta request)
         \<and> ingressTLS i = TLS (ing_Spec request)
         \<and> ingressURL i = url"
    using l by (intro exI [of _ ?request]) simp
qed

lemma uiService_sample:
  "uiService (sample_helpers None None) (app_with None None)
       (getUIServicePortName (app_with None None)) 4040 4040
     = \<lparr>svc_ObjectMeta =
           \<lparr>Name = ''job1-ui-svc'', Namespace = ''ns1'',
            Labels = Some [''sparkoperator.k8s.io/app-name'' \<mapsto> ''job1''],
            Annotations = None,
            OwnerReferences = [\<lparr>or_APIVersion = ''sparkoperator.k8s.io/v1beta2'',
                                or_Kind = ''SparkApplication'',
                                or_Name = ''job1'', or_UID = ''uid-1''\<rparr>]\<rparr>,
         svc_Spec =
           \<lparr>Ports = [\<lparr>sp_Name = ''spark-driver-ui-port'', sp_Port = 4040,
                      sp_TargetPort = \<lparr>ios_Type = intstr_Int, IntVal = 4040, StrVal = []\<rparr>\<rparr>],
            Selector = Some [''sparkoperator.k8s.io/app-name'' \<mapsto> ''job1'',
                             ''spark-role'' \<mapsto> ''driver''],
            ss_Type = ''ClusterIP'', ClusterIP = []\<rparr>\<rparr>"
  unfolding uiService_def Let_def
  by (simp add: sample_helpers_def app_with_def getUIServicePortName_def map_empty_def
        defaultSparkWebUIPortName_def)

lemma uiIngress_sample:
  "uiIngress (sample_helpers None None) (app_with None None) sample_service (url_with_path ''/'')
     = \<lparr>ing_ObjectMeta =
           \<lparr>Name = ''job1-ui-ingress'', Namespace = ''ns1'',
            Labels = Some [''sparkoperator.k8s.io/app-name'' \<mapsto> ''job1''],
            Annotations = None,
            OwnerReferences = [\<lparr>or_APIVersion = ''sparkoperator.k8s.io/v1beta2'',
                                or_Kind = ''SparkApplication'',
                                or_Name = ''job1'', or_UID = ''uid-1''\<rparr>]\<rparr>,
         ing_Spec =
           \<lparr>TLS = None,
            Rules =
              [\<lparr>ir_Host = ''job1.example.com'',
                HTTP = Some
                  \<lparr>Paths =
                     [\<lparr>ip_Path = ''/'',
                       Backend =
                         \<lparr>ServiceName = ''job1-ui-svc'',
                          ib_ServicePort =
                            \<lparr>ios_Type = intstr_Int, IntVal = 4040, StrVal = []\<rparr>\<rparr>\<rparr>]\<rparr>\<rparr>]\<rparr>\<rparr>"
  unfolding uiIngress_def Let_def
  by (simp add: sample_helpers_def app_with_def map_empty_def slice_empty_def
        url_with_path_def emptyURL_def sample_service_def)

lemma createSparkUIService_stamped:
  "createSparkUIService (sample_helpers None None) (app_with None None) stampingStore []
     = (Inr stamped_service,
        [CreateService ''ns1''
           (uiService (sample_helpers None None) (app_with None None)
              (getUIServicePortName (app_with None None)) 4040 4040)])"
proof -
  have n: "app_Namespace (app_with None None) = ''ns1''" by (simp add: app_with_def)
  show ?thesis
    unfolding createSparkUIService_resolved [OF getUIServicePort_default getUITargetPort_default]
      Let_def uiService_sample n
    by (simp add: stampingStore_def stamped_service_def sample_helpers_def)
qed

lemma createSparkUIIngress_stamped:
  "createSparkUIIngress (sample_helpers None None) (app_with None None) sample_service
        (url_with_path ''/'') stampingStore []
     = (Inr root_ingress,
        [CreateIngress ''ns1''
           (uiIngress (sample_helpers None None) (app_with None None) sample_service
              (url_with_path ''/''))])"
  unfolding createSparkUIIngress_def Let_def uiIngress_sample
  by (simp add: stampingStore_def root_ingress_def)

text \<open>
  C4 as it is stated fails at a store that stamps an annotation on what it stores:
  neither descriptor shows the annotation of the object the store returned.
\<close>

theorem descriptor_sources_counterexample:
  "createSparkUIService (sample_helpers None None) (app_with None None) stampingStore []
     = (Inr stamped_service,
        [CreateService ''ns1''
           (uiService (sample_helpers None None) (app_with None None)
              (getUIServicePortName (app_with None None)) 4040 4040)])
   \<and> serviceAnnotations stamped_service = None
   \<and> map_sum id (\<lambda>response. Annotations (svc_ObjectMeta response))
        (ServicesCreate stampingStore ''ns1''
           (uiService (sample_helpers None None) (app_with None None)
              (getUIServicePortName (app_with None None)) 4040 4040))
       = Inr (Some [''store/seen'' \<mapsto> ''true''])
   \<and> createSparkUIIngress (sample_helpers None None) (app_with None None) sample_service
        (url_with_path ''/'') stampingStore []
     = (Inr root_ingress,
        [CreateIngress ''ns1''
           (uiIngress (sample_helpers None None) (app_with None None) sample_service
              (url_with_path ''/''))])
   \<and> annotations root_ingress = None
   \<and> map_sum id (\<lambda>response. Annotations (ing_ObjectMeta response))
        (IngressesCreate stampingStore ''ns1''
           (uiIngress (sample_helpers None None) (app_with None None) sample_service
              (url_with_path ''/'')))
       = Inr (Some [''store/seen'' \<mapsto> ''true''])"
  by (simp add: createSparkUIService_stamped createSparkUIIngress_stamped)
     (simp add: uiService_sample uiIngress_sample stampingStore_def stamp_def
        stamped_service_def root_ingress_def)

text \<open>The theorem at the stamping store.\<close>

theorem descriptor_sources_witness:
  "(\<exists>request response port0 ports.
      ServicesCreate stampingStore ''ns1'' request = Inr response
      \<and> Ports (svc_Spec response) = port0 # ports
      \<and> serviceName stamped_service = Name (svc_ObjectMeta response)
      \<and> serviceIP stamped_service = ClusterIP (svc_Spec response)
      \<and> servicePort stamped_service = sp_Port port0)
   \<and> (\<exists>request :: Ingress. ingressName root_ingress = Name (ing_ObjectMeta request)
      \<and> annotations root_ingress = Annotations (ing_ObjectMeta request)
      \<and> ingressTLS root_ingress = TLS (ing_Spec request))"
proof
  have n: "app_Namespace (app_with None None) = ''ns1''" by (simp add: app_with_def)
  from descriptor_sources [THEN conjunct1, THEN mp, OF createSparkUIService_stamped]
  obtain request response port0 ports where
    "ServicesCreate stampingStore (app_Namespace (app_with None None)) request = Inr response"
    "Ports (svc_Spec response) = port0 # ports"
    "serviceName stamped_service = Name (svc_ObjectMeta response)"
    "serviceIP stamped_service = ClusterIP (svc_Spec response)"
    "servicePort stamped_service = sp_Port port0"
    by blast
  then show "\<exists>request response port0 ports.
      ServicesCreate stampingStore ''ns1'' request = Inr response
      \<and> Ports (svc_Spec response) = port0 # ports
      \<and> serviceName stamped_service = Name (svc_ObjectMeta response)
      \<and> serviceIP stamped_service = ClusterIP (svc_Spec response)
      \<and> servicePort stamped_service = sp_Port port0"
    unfolding n by blast
next
  from descriptor_sources [THEN conjunct2, THEN mp, OF createSparkUIIngress_stamped]
  show "\<exists>request :: Ingress. ingressName root_ingress = Name (ing_ObjectMeta request)
      \<and> annotations root_ingress = Annotations (ing_ObjectMeta request)
      \<and> ingressTLS root_ingress = TLS (ing_Spec request)"
    by (elim exE conjE) (intro exI conjI; assumption)
qed



section \<open>The URL of the ingress\<close>

lemma setPath_Scheme: "setPath u p = Inr u' \<Longrightarrow> Scheme u' = Scheme u"
  by (auto simp: setPath_def split: sum.splits)

lemma setFragment_Scheme: "setFragment u f = Inr u' \<Longrightarrow> Scheme u' = Scheme u"
  by (auto simp: setFragment_def split: sum.splits)

lemma parse_Scheme:
  assumes "parse rawURL = Inr url" and "rawURL \<noteq> ''*''"
    and "getScheme rawURL = Inr (scheme, rest)"
  shows "Scheme url = toLower scheme"
  using assms unfolding parse_def Let_def
  by (auto simp: emptyURL_def split: if_splits sum.splits option.splits prod.splits
           dest!: setPath_Scheme)

lemma getScheme_http: "getScheme (''http://'' @ s) = Inr (''http'', ''//'' @ s)"
  by (simp add: getScheme_def between_def byte_def)

lemma parse_http:
  assumes "parse (''http://'' @ s) = Inr url"
  shows "Scheme url = ''http''"
proof -
  have "Scheme url = toLower ''http''"
    by (rule parse_Scheme [OF assms _ getScheme_http]) simp
  then show ?thesis by (simp add: toLower_def between_def byte_def)
qed

lemma cut_http:
  "(case cut (''http://'' @ s) CHR ''#'' of Some (u, frag) \<Rightarrow> u | None \<Rightarrow> ''http://'' @ s)
     = ''http://'' @ (case cut s CHR ''#'' of Some (u, frag) \<Rightarrow> u | None \<Rightarrow> s)"
  by (simp add: cut_def)

lemma Parse_http:
  assumes "Parse (''http://'' @ s) = Inr url"
  shows "Scheme url = ''http''"
proof -
  define u where "u = (case cut s CHR ''#'' of Some (u, frag) \<Rightarrow> u | None \<Rightarrow> s)"
  obtain url0 where p: "parse (''http://'' @ u) = Inr url0"
    and f: "url = url0 \<or> (\<exists>frag. setFragment url0 frag = Inr url)"
    using assms unfolding Parse_def Let_def cut_http u_def [symmetric]
    by (auto split: sum.splits if_splits)
  from f have "Scheme url = Scheme url0" by (auto dest: setFragment_Scheme)
  then show ?thesis using parse_http [OF p] by simp
qed


lemma expand_plain: "CHR ''$'' \<notin> set repl \<Longrightarrow> expand nameLen repl m = repl"
  by (subst expand.simps) (simp add: cut_def)

lemma ReplaceAllString_substitute:
  "CHR ''$'' \<notin> set repl \<Longrightarrow> ReplaceAllString nameLen tok src repl = substitute tok src repl"
  by (induction nameLen tok src repl rule: ReplaceAllString.induct)
     (simp_all add: expand_plain split: option.splits)

lemma dropWhile_isSpace:
  "list_all isSpace w \<Longrightarrow> \<not> isSpace c \<Longrightarrow> dropWhile isSpace (w @ c # s) = c # s"
  by (induction w) simp_all

lemma placeholder_whitespace:
  assumes "list_all isSpace w1" and "list_all isSpace w2"
  shows "placeholder tok (''{{'' @ w1 @ ''$'' @ tok @ w2 @ ''}}'' @ rest)
           = Some (length (''{{'' @ w1 @ ''$'' @ tok @ w2 @ ''}}''))"
proof -
  have d: "\<not> isSpace CHR ''$''" and b: "\<not> isSpace CHR ''}''"
    by (simp_all add: isSpace_def byte_def)
  have 1: "dropWhile isSpace (w1 @ CHR ''$'' # tok @ w2 @ ''}}'' @ rest)
             = CHR ''$'' # tok @ w2 @ ''}}'' @ rest"
    by (rule dropWhile_isSpace [OF assms(1) d])
  have 2: "dropWhile isSpace (w2 @ CHR ''}'' # CHR ''}'' # rest) = CHR ''}'' # CHR ''}'' # rest"
    by (rule dropWhile_isSpace [OF assms(2) b])
  show ?thesis
    using 1 2 by (simp add: placeholder_def hasPrefix_def Let_def)
qed

lemma ReplaceAllString_http:
  "ReplaceAllString nameLen tok (''http://'' @ s) repl
     = ''http://'' @ ReplaceAllString nameLen tok s repl"
  by (simp add: placeholder_def hasPrefix_def)


lemmas eval_placeholder = placeholder_def hasPrefix_def isSpace_def byte_def
  ingressAppNameURLRegex_def ingressAppNamespaceURLRegex_def

lemmas eval_Parse = Parse_def parse_def cut_def getScheme_def between_def byte_def
  stringContainsCTLByte_def toLower_def hasPrefix_def hasSuffix_def emptyURL_def
  parseAuthority_def parseHost_def lastIndexByte_def indexByte_def setPath_def unescape_def
  escape_def shouldEscape_def validOptionalPort_def

lemma Parse_job1: "Parse ''job1.example.com'' = Inr (emptyURL\<lparr>Path := ''job1.example.com''\<rparr>)"
  by (simp add: eval_Parse)

lemma Parse_http_job1:
  "Parse ''http://job1.example.com''
     = Inr \<lparr>Scheme = ''http'', Opaque = [], User = None, Host = ''job1.example.com'',
            Path = [], RawPath = [], ForceQuery = False, RawQuery = [], Fragment = [],
            RawFragment = []\<rparr>"
  by (simp add: eval_Parse)

lemma Parse_https_job1:
  "Parse ''https://job1-ns1.svc''
     = Inr \<lparr>Scheme = ''https'', Opaque = [], User = None, Host = ''job1-ns1.svc'',
            Path = [], RawPath = [], ForceQuery = False, RawQuery = [], Fragment = [],
            RawFragment = []\<rparr>"
  by (simp add: eval_Parse)

lemma expand_dollars: "expand nameLen ''$$'' m = ''$''"
  by (subst expand.simps, simp add: cut_def, subst expand.simps, simp add: cut_def)

lemma getSparkUIingressURL_templated:
  "getSparkUIingressURL nameLen ingressURLFormat appName appNamespace
     = parse_defaulting_scheme
         (ReplaceAllString nameLen ingressAppNamespaceURLRegex
            (ReplaceAllString nameLen ingressAppNameURLRegex ingressURLFormat appName)
            appNamespace)"
  unfolding getSparkUIingressURL_def parse_defaulting_scheme_def Let_def
  by (simp split: sum.splits)

lemma templated_https:
  "ReplaceAllString nameLen ingressAppNamespaceURLRegex
     (ReplaceAllString nameLen ingressAppNameURLRegex
        ''https://{{ $appName }}-{{$appNamespace}}.svc'' ''job1'') ''ns1''
     = ''https://job1-ns1.svc''"
  by (simp add: eval_placeholder expand_plain)

lemma kubernetesName_no_dollar: "kubernetesName s \<Longrightarrow> CHR ''$'' \<notin> set s"
  by (induction s) (auto simp: kubernetesName_def isNameChar_def between_def byte_def)

text \<open>
  C7.  For every format, and for every workload name and namespace that are names of
  Kubernetes objects, \<^verbatim>\<open>getSparkUIingressURL\<close> parses the format in which first every
  placeholder of the name is replaced by the name and then, in the result, every
  placeholder of the namespace by the namespace.  White space around the token inside
  the braces is accepted.  The format \<^verbatim>\<open>https://{{ $appName }}-{{$appNamespace}}.svc\<close> with
  \<^verbatim>\<open>job1\<close> and \<^verbatim>\<open>ns1\<close> gives the scheme \<^verbatim>\<open>https\<close> and the host \<^verbatim>\<open>job1-ns1.svc\<close>.
\<close>

theorem getSparkUIingressURL_substitutes:
  assumes "kubernetesName appName" and "kubernetesName appNamespace"
  shows "getSparkUIingressURL nameLen ingressURLFormat appName appNamespace
           = parse_defaulting_scheme
               (substitute ''appNamespace''
                  (substitute ''appName'' ingressURLFormat appName) appNamespace)
         \<and> (list_all isSpace w1 \<and> list_all isSpace w2 \<longrightarrow>
              ReplaceAllString nameLen ingressAppNameURLRegex
                (''{{'' @ w1 @ ''$appName'' @ w2 @ ''}}'') appName = appName
              \<and> ReplaceAllString nameLen ingressAppNamespaceURLRegex
                (''{{'' @ w1 @ ''$appNamespace'' @ w2 @ ''}}'') appNamespace = appNamespace)
         \<and> getSparkUIingressURL nameLen ''https://{{ $appName }}-{{$appNamespace}}.svc''
              ''job1'' ''ns1''
             = Inr \<lparr>Scheme = ''https'', Opaque = [], User = None, Host = ''job1-ns1.svc'',
                    Path = [], RawPath = [], ForceQuery = False, RawQuery = [], Fragment = [],
                    RawFragment = []\<rparr>"
proof (intro conjI impI)
  note d = kubernetesName_no_dollar [OF assms(1)] kubernetesName_no_dollar [OF assms(2)]
  show "getSparkUIingressURL nameLen ingressURLFormat appName appNamespace
           = parse_defaulting_scheme
               (substitute ''appNamespace''
                  (substitute ''appName'' ingressURLFormat appName) appNamespace)"
    using d
    by (simp add: getSparkUIingressURL_templated ReplaceAllString_substitute
          ingressAppNameURLRegex_def ingressAppNamespaceURLRegex_def)
  {
    assume w: "list_all isSpace w1 \<and> list_all isSpace w2"
    have "placeholder ''appName'' (''{{'' @ w1 @ ''$'' @ ''appName'' @ w2 @ ''}}'' @ [])
            = Some (length (''{{'' @ w1 @ ''$'' @ ''appName'' @ w2 @ ''}}''))"
      using w by (intro placeholder_whitespace) simp_all
    then have "substitute ''appName'' (''{{'' @ w1 @ ''$appName'' @ w2 @ ''}}'') appName = appName"
      by simp
    then show "ReplaceAllString nameLen ingressAppNameURLRegex
                (''{{'' @ w1 @ ''$appName'' @ w2 @ ''}}'') appName = appName"
      unfolding ingressAppNameURLRegex_def ReplaceAllString_substitute [OF d(1)] .
    have "placeholder ''appNamespace'' (''{{'' @ w1 @ ''$'' @ ''appNamespace'' @ w2 @ ''}}'' @ [])
            = Some (length (''{{'' @ w1 @ ''$'' @ ''appNamespace'' @ w2 @ ''}}''))"
      using w by (intro placeholder_whitespace) simp_all
    then have "substitute ''appNamespace'' (''{{'' @ w1 @ ''$appNamespace'' @ w2 @ ''}}'')
                 appNamespace = appNamespace"
      by simp
    then show "ReplaceAllString nameLen ingressAppNamespaceURLRegex
                (''{{'' @ w1 @ ''$appNamespace'' @ w2 @ ''}}'') appNamespace = appNamespace"
      unfolding ingressAppNamespaceURLRegex_def ReplaceAllString_substitute [OF d(2)] .
  }
  have "getSparkUIingressURL nameLen ''https://{{ $appName }}-{{$appNamespace}}.svc''
              ''job1'' ''ns1'' = parse_defaulting_scheme ''https://job1-ns1.svc''"
    unfolding getSparkUIingressURL_templated templated_https ..
  then show "getSparkUIingressURL nameLen ''https://{{ $appName }}-{{$appNamespace}}.svc''
              ''job1'' ''ns1''
             = Inr \<lparr>Scheme = ''https'', Opaque = [], User = None, Host = ''job1-ns1.svc'',
                    Path = [], RawPath = [], ForceQuery = False, RawQuery = [], Fragment = [],
                    RawFragment = []\<rparr>"
    by (simp add: parse_defaulting_scheme_def Parse_https_job1)
qed

text \<open>
  The theorem at the names \<^verbatim>\<open>job1\<close> and \<^verbatim>\<open>ns1\<close>, at a format with a path, and at the
  placeholders written with a space on each side of the token.
\<close>

theorem getSparkUIingressURL_substitutes_witness:
  "getSparkUIingressURL asciiNameLen ''{{  $appName}}.example.com/{{$appNamespace }}'' ''job1'' ''ns1''
     = parse_defaulting_scheme ''job1.example.com/ns1''
   \<and> ReplaceAllString asciiNameLen ingressAppNameURLRegex ''{{ $appName }}'' ''job1'' = ''job1''
   \<and> ReplaceAllString asciiNameLen ingressAppNamespaceURLRegex ''{{ $appNamespace }}'' ''ns1''
       = ''ns1''"
proof -
  have k: "kubernetesName ''job1''" "kubernetesName ''ns1''"
    by (simp_all add: kubernetesName_def isNameChar_def between_def byte_def)
  have s: "list_all isSpace '' '' \<and> list_all isSpace '' ''"
    by (simp add: isSpace_def byte_def)
  have e: "substitute ''appNamespace''
             (substitute ''appName'' ''{{  $appName}}.example.com/{{$appNamespace }}'' ''job1'') ''ns1''
           = ''job1.example.com/ns1''"
    by (simp add: eval_placeholder)
  have a: "''{{'' @ '' '' @ ''$appName'' @ '' '' @ ''}}'' = ''{{ $appName }}''"
    "''{{'' @ '' '' @ ''$appNamespace'' @ '' '' @ ''}}'' = ''{{ $appNamespace }}''"
    by simp_all
  note T = getSparkUIingressURL_substitutes [OF k, of asciiNameLen
         "''{{  $appName}}.example.com/{{$appNamespace }}''" "'' ''" "'' ''", unfolded e a]
  from T [THEN conjunct1] T [THEN conjunct2, THEN conjunct1, THEN mp, OF s]
  show ?thesis by (intro conjI) (erule conjunct1 conjunct2 | assumption)+
qed

text \<open>
  A name with a \<^verbatim>\<open>$\<close> in it, which is no name of a Kubernetes object, is not always
  put in as it is: \<^verbatim>\<open>ReplaceAllString\<close> expands the replacement as a template, in which
  \<^verbatim>\<open>$$\<close> stands for one \<^verbatim>\<open>$\<close>.
\<close>

lemma ReplaceAllString_expands_dollars:
  "ReplaceAllString asciiNameLen ingressAppNameURLRegex ''{{$appName}}.example.com'' ''$$''
     = ''$.example.com''
   \<and> \<not> kubernetesName ''$$''"
  by (simp add: eval_placeholder expand_dollars kubernetesName_def isNameChar_def between_def)

lemma templated_job1:
  "ReplaceAllString nameLen ingressAppNamespaceURLRegex
     (ReplaceAllString nameLen ingressAppNameURLRegex ''{{$appName}}.example.com'' ''job1'') ''ns1''
     = ''job1.example.com''"
  by (simp add: eval_placeholder expand_plain)

text \<open>
  C8.  A URL that \<^verbatim>\<open>getSparkUIingressURL\<close> returns has a scheme.  When the templated
  string parses with an empty scheme, the result is the parse of the string with
  \<^verbatim>\<open>http://\<close> put in front, and the format with \<^verbatim>\<open>http://\<close> put in front has the same
  result.  The format \<^verbatim>\<open>{{$appName}}.example.com\<close> with \<^verbatim>\<open>job1\<close> and \<^verbatim>\<open>ns1\<close> gives the
  scheme \<^verbatim>\<open>http\<close>, the host \<^verbatim>\<open>job1.example.com\<close> and an empty path, and so does parsing
  \<^verbatim>\<open>http://job1.example.com\<close>.
\<close>

theorem getSparkUIingressURL_scheme:
  "(getSparkUIingressURL nameLen ingressURLFormat appName appNamespace = Inr url
      \<longrightarrow> Scheme url \<noteq> [])
   \<and> (Parse (ReplaceAllString nameLen ingressAppNamespaceURLRegex
               (ReplaceAllString nameLen ingressAppNameURLRegex ingressURLFormat appName)
               appNamespace) = Inr parsedURL
       \<and> Scheme parsedURL = []
      \<longrightarrow> getSparkUIingressURL nameLen ingressURLFormat appName appNamespace
            = Parse (''http://'' @
                ReplaceAllString nameLen ingressAppNamespaceURLRegex
                  (ReplaceAllString nameLen ingressAppNameURLRegex ingressURLFormat appName)
                  appNamespace)
          \<and> getSparkUIingressURL nameLen (''http://'' @ ingressURLFormat) appName appNamespace
            = getSparkUIingressURL nameLen ingressURLFormat appName appNamespace)
   \<and> getSparkUIingressURL nameLen ''{{$appName}}.example.com'' ''job1'' ''ns1''
       = Inr \<lparr>Scheme = ''http'', Opaque = [], User = None, Host = ''job1.example.com'',
              Path = [], RawPath = [], ForceQuery = False, RawQuery = [], Fragment = [],
              RawFragment = []\<rparr>
   \<and> Parse ''http://job1.example.com''
       = getSparkUIingressURL nameLen ''{{$appName}}.example.com'' ''job1'' ''ns1''"
proof (intro conjI impI)
  let ?T = "ReplaceAllString nameLen ingressAppNamespaceURLRegex
               (ReplaceAllString nameLen ingressAppNameURLRegex ingressURLFormat appName)
               appNamespace"
  {
    assume a: "getSparkUIingressURL nameLen ingressURLFormat appName appNamespace = Inr url"
    show "Scheme url \<noteq> []"
    proof (cases "Parse ?T")
      case (Inl err)
      with a show ?thesis by (simp add: getSparkUIingressURL_def)
    next
      case (Inr parsed)
      show ?thesis
      proof (cases "Scheme parsed = []")
        case True
        with a Inr have "Parse (''http://'' @ ?T) = Inr url"
          by (simp add: getSparkUIingressURL_def split: sum.splits)
        then show ?thesis by (simp add: Parse_http)
      next
        case False
        with a Inr show ?thesis by (simp add: getSparkUIingressURL_def)
      qed
    qed
  }
  {
    assume a: "Parse ?T = Inr parsedURL \<and> Scheme parsedURL = []"
    then show r: "getSparkUIingressURL nameLen ingressURLFormat appName appNamespace
            = Parse (''http://'' @ ?T)"
      by (simp add: getSparkUIingressURL_def split: sum.splits)
    have "getSparkUIingressURL nameLen (''http://'' @ ingressURLFormat) appName appNamespace
            = parse_defaulting_scheme (''http://'' @ ?T)"
      by (simp only: getSparkUIingressURL_templated ReplaceAllString_http)
    also have "\<dots> = Parse (''http://'' @ ?T)"
      by (auto simp: parse_defaulting_scheme_def Parse_http split: sum.splits)
    finally show "getSparkUIingressURL nameLen (''http://'' @ ingressURLFormat) appName appNamespace
            = getSparkUIingressURL nameLen ingressURLFormat appName appNamespace"
      using r by simp
  }
  show e: "getSparkUIingressURL nameLen ''{{$appName}}.example.com'' ''job1'' ''ns1''
       = Inr \<lparr>Scheme = ''http'', Opaque = [], User = None, Host = ''job1.example.com'',
              Path = [], RawPath = [], ForceQuery = False, RawQuery = [], Fragment = [],
              RawFragment = []\<rparr>"
    unfolding getSparkUIingressURL_templated templated_job1
    by (simp add: parse_defaulting_scheme_def Parse_job1 Parse_http_job1 emptyURL_def)
  show "Parse ''http://job1.example.com''
       = getSparkUIingressURL nameLen ''{{$appName}}.example.com'' ''job1'' ''ns1''"
    by (simp add: e Parse_http_job1)
qed

text \<open>The theorem at the format \<^verbatim>\<open>{{$appName}}.example.com\<close>, whose first parse has no scheme.\<close>

theorem getSparkUIingressURL_scheme_witness:
  "getSparkUIingressURL asciiNameLen ''{{$appName}}.example.com'' ''job1'' ''ns1''
     = Parse ''http://job1.example.com''
   \<and> getSparkUIingressURL asciiNameLen ''http://{{$appName}}.example.com'' ''job1'' ''ns1''
     = getSparkUIingressURL asciiNameLen ''{{$appName}}.example.com'' ''job1'' ''ns1''
   \<and> Scheme \<lparr>Scheme = ''http'', Opaque = [], User = None, Host = ''job1.example.com'',
              Path = [], RawPath = [], ForceQuery = False, RawQuery = [], Fragment = [],
              RawFragment = []\<rparr> \<noteq> []"
proof -
  let ?U = "\<lparr>Scheme = ''http'', Opaque = [], User = None, Host = ''job1.example.com'',
              Path = [], RawPath = [], ForceQuery = False, RawQuery = [], Fragment = [],
              RawFragment = []\<rparr>"
  note T = getSparkUIingressURL_scheme
         [of asciiNameLen "''{{$appName}}.example.com''" "''job1''" "''ns1''" ?U
             "emptyURL\<lparr>Path := ''job1.example.com''\<rparr>", unfolded templated_job1]
  have p: "Parse ''job1.example.com'' = Inr (emptyURL\<lparr>Path := ''job1.example.com''\<rparr>)
           \<and> Scheme (emptyURL\<lparr>Path := ''job1.example.com''\<rparr>) = []"
    by (simp add: Parse_job1 emptyURL_def)
  have a: "''http://'' @ ''job1.example.com'' = ''http://job1.example.com''"
      "''http://'' @ ''{{$appName}}.example.com'' = ''http://{{$appName}}.example.com''"
    by simp_all
  from T [THEN conjunct2, THEN conjunct1, THEN mp, OF p]
  have 1: "getSparkUIingressURL asciiNameLen ''{{$appName}}.example.com'' ''job1'' ''ns1''
             = Parse ''http://job1.example.com''"
    and 2: "getSparkUIingressURL asciiNameLen ''http://{{$appName}}.example.com'' ''job1'' ''ns1''
     = getSparkUIingressURL asciiNameLen ''{{$appName}}.example.com'' ''job1'' ''ns1''"
    unfolding a by (rule conjunct1, rule conjunct2)
  from T [THEN conjunct1, THEN mp, OF T [THEN conjunct2, THEN conjunct2, THEN conjunct1]]
  have 3: "Scheme ?U \<noteq> []" .
  from 1 2 3 show ?thesis by (intro conjI)
qed

end
